theory Spec2Isabelle
  imports
    Complex_Main
    "HOL-Library.Char_ord"
    "HOL-Library.List_Lexorder"
    "HOL-Library.Product_Lexorder"
begin

section \<open>The data VisualizeLog.py works on\<close>

text \<open>
  \<^verbatim>\<open>VisualizeLog.py\<close> is one function, \<^verbatim>\<open>generate_report\<close>, with two local
  helpers, \<^verbatim>\<open>extract_top_data\<close> and \<^verbatim>\<open>filter_top_consumers\<close>. Everything it does to
  its data goes through pandas; the embedding writes out the part of pandas the program
  relies on, one definition per library call, and keeps the program's own control flow
  in the three functions that carry the program's names.

  Exceptions are values. \<open>ReadError\<close> stands for whatever \<^verbatim>\<open>pd.read_csv\<close> raised on a
  file (a missing file, a parser error, a decoding error), with its text.
\<close>

datatype py_error = KeyError string | ValueError | TypeError | ReadError string

text \<open>
  A cell of a table read by \<^verbatim>\<open>pd.read_csv\<close> is either null (NaN: an empty field, or a
  column the file did not have, filled in by \<^verbatim>\<open>pd.concat\<close>) or a value. The program
  does three things to a value, and a value is described by what each of them gives:
  \<^item> \<open>as_str\<close>: the text \<^verbatim>\<open>str(v)\<close>;
  \<^item> \<open>as_float\<close>: the number \<^verbatim>\<open>float(v)\<close>, \<open>None\<close> when \<^verbatim>\<open>float\<close> raises
    (text that is not a number);
  \<^item> \<open>as_time\<close>: the instant \<^verbatim>\<open>pd.to_datetime\<close> reads in the cell, \<open>None\<close> when it
    raises (text that is not a date).
  Floating-point numbers are modelled by the reals, instants by integers (a count of
  time units since the epoch).
\<close>

datatype cell = Null | Cell (as_str: string) (as_float: "real option") (as_time: "int option")

record frame =
  columns :: "string list"
  rows :: "(string \<Rightarrow> cell) list"

text \<open>
  The merged table after \<^verbatim>\<open>df_main['Timestamp'] = pd.to_datetime(...)\<close>: the
  \<^verbatim>\<open>Timestamp\<close> column holds instants, \<open>None\<close> being NaT; the other columns are as
  they were read.
\<close>

record main_row =
  stamp :: "int option"
  cells :: "string \<Rightarrow> cell"

record main_frame =
  main_columns :: "string list"
  main_rows :: "main_row list"

text \<open>A row of a long table: the dictionary \<^verbatim>\<open>extract_top_data\<close> appends.\<close>

record long_row =
  Timestamp :: "int option"
  ProcessName :: string
  Value :: real

text \<open>
  What the run prints. The texts that the claims quote are kept as text; the other
  lines keep their arguments (the list of files, the exception, the banner lines).
\<close>

datatype message =
    Print string
  | FoundLogFiles "string list"
  | ErrorReading string py_error
  | SuccessfullyCreated string
  | SuccessBanner

text \<open>
  The chart: the traces added to the figure, each with the row of the 4-row grid it is
  drawn in. The four fixed series of rows 1 and 2 carry a column of the merged table;
  the series of rows 3 and 4 carry the rows of one process.
\<close>

datatype series = TotalMB | UsedMB | NonPagedPoolMB | PagedPoolMB | Mem string | Handles string

datatype yvalues = Cells "cell list" | Floats "real list"

record trace =
  chart_row :: nat
  name :: series
  x :: "int option list"
  y :: yvalues

text \<open>
  How a run ends: \<open>Returned\<close> is one of the two early \<^verbatim>\<open>return\<close>s (nothing written),
  \<open>Raised e\<close> an exception that leaves \<^verbatim>\<open>generate_report\<close> (nothing written), and
  \<open>Written fig\<close> the report written to \<^verbatim>\<open>MemoryForensicsReport.html\<close>.
\<close>

datatype outcome = Returned | Raised py_error | Written "trace list"

text \<open>
  Statements run one after the other: an exception raised by one of them ends the
  sequence, otherwise the next one goes on with the value.
\<close>

fun and_then :: "py_error + 'a \<Rightarrow> ('a \<Rightarrow> py_error + 'b) \<Rightarrow> py_error + 'b" where
  "and_then (Inl e) f = Inl e"
| "and_then (Inr v) f = f v"

section \<open>The pandas operations the program calls\<close>

definition pd_notna :: "cell \<Rightarrow> bool" where
  "pd_notna c = (c \<noteq> Null)"

text \<open>\<^verbatim>\<open>str(nan)\<close> is \<^verbatim>\<open>'nan'\<close>.\<close>

fun py_str :: "cell \<Rightarrow> string" where
  "py_str Null = ''nan''"
| "py_str (Cell s f t) = s"

text \<open>
  \<^verbatim>\<open>float(v)\<close>. The program calls it only on a cell that passed \<^verbatim>\<open>pd.notna\<close>; the
  null case is \<^verbatim>\<open>float(None)\<close>.
\<close>

fun py_float :: "cell \<Rightarrow> py_error + real" where
  "py_float Null = Inl TypeError"
| "py_float (Cell s None t) = Inl ValueError"
| "py_float (Cell s (Some v) t) = Inr v"

text \<open>
  \<^verbatim>\<open>pd.concat(all_dfs, ignore_index=True)\<close>: the columns are the union of the frames'
  columns in order of first appearance, the rows follow each other in the order of the
  frames, and a row has NaN in the columns its frame did not have.
\<close>

definition pd_concat :: "frame list \<Rightarrow> frame" where
  "pd_concat dfs =
     \<lparr>columns = rev (remdups (rev (concat (map columns dfs)))),
      rows = concat (map (\<lambda>df. map (\<lambda>r c. if c \<in> set (columns df) then r c else Null) (rows df)) dfs)\<rparr>"

text \<open>
  \<^verbatim>\<open>pd.to_datetime\<close> on a column: NaN becomes NaT, a date becomes its instant, and the
  first cell that is not a date raises.
\<close>

fun to_datetime :: "cell \<Rightarrow> py_error + int option" where
  "to_datetime Null = Inr None"
| "to_datetime (Cell s f None) = Inl ValueError"
| "to_datetime (Cell s f (Some t)) = Inr (Some t)"

fun assign_timestamps :: "(string \<Rightarrow> cell) list \<Rightarrow> py_error + main_row list" where
  "assign_timestamps [] = Inr []"
| "assign_timestamps (r # rs) =
     (case to_datetime (r ''Timestamp'') of
        Inl e \<Rightarrow> Inl e
      | Inr t \<Rightarrow>
          (case assign_timestamps rs of
             Inl e \<Rightarrow> Inl e
           | Inr ms \<Rightarrow> Inr (\<lparr>stamp = t, cells = r\<rparr> # ms)))"

text \<open>
  \<^verbatim>\<open>df.sort_values('Timestamp')\<close>: ascending, NaT last. pandas leaves the order of rows
  with equal timestamps to its sorting algorithm; the model keeps their order.
\<close>

fun stamp_key :: "int option \<Rightarrow> nat \<times> int" where
  "stamp_key None = (1, 0)"
| "stamp_key (Some t) = (0, t)"

definition sort_values :: "main_row list \<Rightarrow> main_row list" where
  "sort_values rs = sort_key (\<lambda>r. stamp_key (stamp r)) rs"

text \<open>
  \<^verbatim>\<open>pd.DataFrame(data).groupby(['Timestamp', 'ProcessName'], as_index=False)['Value'].sum()\<close>.
  \<^verbatim>\<open>pd.DataFrame([])\<close> has no columns, so grouping it raises \<^verbatim>\<open>KeyError\<close>. Otherwise
  the rows whose timestamp is NaT are dropped (\<^verbatim>\<open>dropna=True\<close> is the default), and the
  result has one row per distinct key, in ascending order of the keys, with the sum of
  the values of the key's rows.
\<close>

fun group_key :: "long_row \<Rightarrow> (int \<times> string) option" where
  "group_key r = (case Timestamp r of None \<Rightarrow> None | Some t \<Rightarrow> Some (t, ProcessName r))"

definition group_rows :: "long_row list \<Rightarrow> int \<times> string \<Rightarrow> long_row list" where
  "group_rows df k = filter (\<lambda>r. group_key r = Some k) df"

definition groupby_sum :: "long_row list \<Rightarrow> py_error + long_row list" where
  "groupby_sum data =
     (if data = [] then Inl (KeyError ''Timestamp'')
      else Inr (map (\<lambda>k. \<lparr>Timestamp = Some (fst k), ProcessName = snd k,
                           Value = sum_list (map Value (group_rows data k))\<rparr>)
                    (sort (remdups (List.map_filter group_key data)))))"

text \<open>The largest element of a non-empty list (\<^verbatim>\<open>.max()\<close> of a group).\<close>

fun maximum :: "real list \<Rightarrow> real" where
  "maximum [] = 0"
| "maximum [v] = v"
| "maximum (v # w # vs) = max v (maximum (w # vs))"

text \<open>Decimal digits of a number, as an f-string writes \<^verbatim>\<open>{i}\<close>.\<close>

fun digit :: "nat \<Rightarrow> char" where
  "digit n = char_of (48 + n)"

function str_nat :: "nat \<Rightarrow> string" where
  "str_nat n = (if n < 10 then [digit n] else str_nat (n div 10) @ [digit (n mod 10)])"
  by pat_completeness auto
termination
  by (relation "measure id") auto

declare str_nat.simps [simp del]

section \<open>The program\<close>

subsection \<open>\<^verbatim>\<open>extract_top_data\<close>\<close>

text \<open>
  The inner loop, \<^verbatim>\<open>for i in range(1, count + 1)\<close>, over one row of \<^verbatim>\<open>df_main\<close>.
  \<^verbatim>\<open>name_col in row\<close> asks whether the merged table has the column. \<open>data\<close> is the list
  the loops append to.
\<close>

fun extract_slots ::
  "string list \<Rightarrow> main_row \<Rightarrow> string \<Rightarrow> string \<Rightarrow> string \<Rightarrow> nat list \<Rightarrow> long_row list
     \<Rightarrow> py_error + long_row list" where
  "extract_slots cols row prefix_name prefix_val val_col_name [] data = Inr data"
| "extract_slots cols row prefix_name prefix_val val_col_name (i # is) data =
     (let name_col = prefix_name @ str_nat i @ ''_Name'';
          val_col = prefix_val @ str_nat i @ ''_'' @ val_col_name
      in if name_col \<in> set cols \<and> val_col \<in> set cols then
           (let p_name = cells row name_col; p_val = cells row val_col
            in if pd_notna p_name \<and> pd_notna p_val then
                 (case py_float p_val of
                    Inl e \<Rightarrow> Inl e
                  | Inr v \<Rightarrow>
                      extract_slots cols row prefix_name prefix_val val_col_name is
                        (data @ [\<lparr>Timestamp = stamp row, ProcessName = py_str p_name, Value = v\<rparr>]))
               else extract_slots cols row prefix_name prefix_val val_col_name is data)
         else extract_slots cols row prefix_name prefix_val val_col_name is data)"

text \<open>The outer loop, \<^verbatim>\<open>for index, row in df_main.iterrows()\<close>.\<close>

fun extract_rows ::
  "string list \<Rightarrow> main_row list \<Rightarrow> string \<Rightarrow> string \<Rightarrow> nat \<Rightarrow> string \<Rightarrow> long_row list
     \<Rightarrow> py_error + long_row list" where
  "extract_rows cols [] prefix_name prefix_val count val_col_name data = Inr data"
| "extract_rows cols (row # rest) prefix_name prefix_val count val_col_name data =
     (case extract_slots cols row prefix_name prefix_val val_col_name [1..<count + 1] data of
        Inl e \<Rightarrow> Inl e
      | Inr data' \<Rightarrow> extract_rows cols rest prefix_name prefix_val count val_col_name data')"

definition extract_top_data ::
  "main_frame \<Rightarrow> string \<Rightarrow> string \<Rightarrow> nat \<Rightarrow> string \<Rightarrow> py_error + long_row list" where
  "extract_top_data df_main prefix_name prefix_val count val_col_name =
     extract_rows (main_columns df_main) (main_rows df_main) prefix_name prefix_val count
       val_col_name []"

subsection \<open>\<^verbatim>\<open>filter_top_consumers\<close>\<close>

text \<open>
  The function has two shapes of result: on an empty table it returns the table alone
  (\<^verbatim>\<open>if df.empty: return df\<close>), otherwise the pair of the filtered table and the list of
  selected names.
\<close>

datatype selection = Table_only "long_row list" | Table_and_names "long_row list" "string list"

text \<open>
  \<^verbatim>\<open>df.groupby('ProcessName')[value_col].max()\<close> has one entry per distinct name, in
  ascending order of the names; \<^verbatim>\<open>.sort_values(ascending=False)\<close> orders the entries by
  decreasing maximum (pandas leaves the order of equal maxima to its sorting algorithm;
  the model keeps their order); \<^verbatim>\<open>.head(top_n)\<close> takes the first \<open>top_n\<close> entries.
  \<open>top_n\<close> is a count; \<open>value_col\<close> selects the column, and every call passes
  \<^verbatim>\<open>'Value'\<close>.
\<close>

definition max_usage :: "long_row list \<Rightarrow> (long_row \<Rightarrow> real) \<Rightarrow> (string \<times> real) list" where
  "max_usage df value_col =
     sort_key (\<lambda>p. - snd p)
       (map (\<lambda>n. (n, maximum (map value_col (filter (\<lambda>r. ProcessName r = n) df))))
            (sort (remdups (map ProcessName df))))"

definition filter_top_consumers ::
  "long_row list \<Rightarrow> (long_row \<Rightarrow> real) \<Rightarrow> nat \<Rightarrow> selection" where
  "filter_top_consumers df value_col top_n =
     (if df = [] then Table_only df
      else (let top_consumers = map fst (take top_n (max_usage df value_col))
            in Table_and_names (filter (\<lambda>r. ProcessName r \<in> set top_consumers) df) top_consumers))"

text \<open>The default of the parameter \<^verbatim>\<open>top_n\<close>.\<close>

definition top_n_default :: nat where
  "top_n_default = 10"

text \<open>
  \<^verbatim>\<open>df_filtered, consumers = filter_top_consumers(...)\<close>. Unpacking a pair gives its two
  components. Unpacking a table iterates over its column labels, and a grouped long
  table has three: \<^verbatim>\<open>ValueError: too many values to unpack\<close>.
\<close>

fun unpack :: "selection \<Rightarrow> py_error + long_row list \<times> string list" where
  "unpack (Table_only df) = Inl ValueError"
| "unpack (Table_and_names df consumers) = Inr (df, consumers)"

subsection \<open>\<^verbatim>\<open>generate_report\<close>\<close>

text \<open>
  Step 2, the loop over the sorted files. \<open>read_csv\<close> is the file system as
  \<^verbatim>\<open>pd.read_csv\<close> sees it: the frame it reads from a file, or the exception it raises.
  The loop returns the lines it printed and \<^verbatim>\<open>all_dfs\<close>.
\<close>

fun load_files ::
  "(string \<Rightarrow> py_error + frame) \<Rightarrow> string list \<Rightarrow> message list \<times> frame list" where
  "load_files read_csv [] = ([], [])"
| "load_files read_csv (f # fs) =
     (let (msgs, all_dfs) = load_files read_csv fs
      in case read_csv f of
           Inr df \<Rightarrow>
             if ''NonPagedPoolMB'' \<in> set (columns df) then (msgs, df # all_dfs)
             else (Print (''Skipping '' @ f @ '': Old format (missing NonPagedPoolMB)'') # msgs,
                   all_dfs)
         | Inl e \<Rightarrow> (ErrorReading f e # msgs, all_dfs))"

text \<open>
  Lines 38 to 42: concatenate, convert the \<^verbatim>\<open>Timestamp\<close> column (\<^verbatim>\<open>KeyError\<close> when no
  file had one), sort.
\<close>

definition merge_frames :: "frame list \<Rightarrow> py_error + main_frame" where
  "merge_frames all_dfs =
     (let df_main = pd_concat all_dfs
      in if ''Timestamp'' \<notin> set (columns df_main) then Inl (KeyError ''Timestamp'')
         else (case assign_timestamps (rows df_main) of
                 Inl e \<Rightarrow> Inl e
               | Inr ms \<Rightarrow> Inr \<lparr>main_columns = columns df_main, main_rows = sort_values ms\<rparr>))"

text \<open>\<^verbatim>\<open>df_main[col]\<close> for the fixed series of rows 1 and 2.\<close>

definition get_column :: "main_frame \<Rightarrow> string \<Rightarrow> py_error + cell list" where
  "get_column df_main col =
     (if col \<in> set (main_columns df_main) then Inr (map (\<lambda>r. cells r col) (main_rows df_main))
      else Inl (KeyError col))"

definition column_trace :: "main_frame \<Rightarrow> nat \<Rightarrow> series \<Rightarrow> string \<Rightarrow> py_error + trace" where
  "column_trace df_main n s col =
     (case get_column df_main col of
        Inl e \<Rightarrow> Inl e
      | Inr ys \<Rightarrow> Inr \<lparr>chart_row = n, name = s, x = map stamp (main_rows df_main), y = Cells ys\<rparr>)"

text \<open>Plots 3 and 4: one trace per selected name, unless the filtered table is empty.\<close>

definition process_traces ::
  "nat \<Rightarrow> (string \<Rightarrow> series) \<Rightarrow> long_row list \<Rightarrow> string list \<Rightarrow> trace list" where
  "process_traces n label df_filtered consumers =
     (if df_filtered \<noteq> [] then
        map (\<lambda>proc_name.
               let proc_df = filter (\<lambda>r. ProcessName r = proc_name) df_filtered
               in \<lparr>chart_row = n, name = label proc_name, x = map Timestamp proc_df,
                   y = Floats (map Value proc_df)\<rparr>)
            consumers
      else [])"

text \<open>Steps 3 to 5 on the merged table: the figure, or the exception.\<close>

definition build_figure :: "main_frame \<Rightarrow> py_error + trace list" where
  "build_figure df_main =
     and_then (extract_top_data df_main ''TopMem'' ''TopMem'' 10 ''MB'') (\<lambda>df_mem_raw.
     and_then (groupby_sum df_mem_raw) (\<lambda>df_mem.
     and_then (extract_top_data df_main ''TopHandle'' ''TopHandle'' 5 ''Count'') (\<lambda>df_handle_raw.
     and_then (groupby_sum df_handle_raw) (\<lambda>df_handle.
     and_then (unpack (filter_top_consumers df_mem Value 5)) (\<lambda>(df_mem_filtered, mem_consumers).
     and_then (unpack (filter_top_consumers df_handle Value 3)) (\<lambda>(df_handle_filtered, handle_consumers).
     and_then (column_trace df_main 1 TotalMB ''TotalMB'') (\<lambda>t1.
     and_then (column_trace df_main 1 UsedMB ''UsedMB'') (\<lambda>t2.
     and_then (column_trace df_main 2 NonPagedPoolMB ''NonPagedPoolMB'') (\<lambda>t3.
     and_then (column_trace df_main 2 PagedPoolMB ''PagedPoolMB'') (\<lambda>t4.
       Inr ([t1, t2, t3, t4]
            @ process_traces 3 Mem df_mem_filtered mem_consumers
            @ process_traces 4 Handles df_handle_filtered handle_consumers)))))))))))"

text \<open>
  The whole run. \<open>log_files\<close> is what \<^verbatim>\<open>glob.glob('*_log.csv')\<close> returned. The result is
  the lines printed and how the run ended.
\<close>

definition generate_report ::
  "string list \<Rightarrow> (string \<Rightarrow> py_error + frame) \<Rightarrow> message list \<times> outcome" where
  "generate_report log_files read_csv =
     (if log_files = [] then
        ([Print ''No log files (*_log.csv) found in the current directory.''], Returned)
      else
        (let sorted_files = sort log_files;
             found = [FoundLogFiles sorted_files];
             (msgs, all_dfs) = load_files read_csv sorted_files
         in if all_dfs = [] then
              (found @ msgs @ [Print ''Could not read any valid data (New Format).''], Returned)
            else
              (case merge_frames all_dfs of
                 Inl e \<Rightarrow> (found @ msgs, Raised e)
               | Inr df_main \<Rightarrow>
                   (case build_figure df_main of
                      Inl e \<Rightarrow> (found @ msgs, Raised e)
                    | Inr fig \<Rightarrow>
                        (found @ msgs
                           @ [SuccessfullyCreated ''MemoryForensicsReport.html'', SuccessBanner,
                              Print ''Report has been successfully generated! Please open MemoryForensicsReport.html to view.''],
                         Written fig)))))"

section \<open>The notions the properties are stated with\<close>

text \<open>
  The frame of a file that parses and has the marker column \<^verbatim>\<open>NonPagedPoolMB\<close>; a
  valid file is one that has such a frame.
\<close>

definition valid_frame :: "(string \<Rightarrow> py_error + frame) \<Rightarrow> string \<Rightarrow> frame option" where
  "valid_frame read_csv f =
     (case read_csv f of
        Inl e \<Rightarrow> None
      | Inr df \<Rightarrow> if ''NonPagedPoolMB'' \<in> set (columns df) then Some df else None)"

definition valid_file :: "(string \<Rightarrow> py_error + frame) \<Rightarrow> string \<Rightarrow> bool" where
  "valid_file read_csv f = (valid_frame read_csv f \<noteq> None)"

text \<open>The two columns of slot \<open>i\<close> under the naming convention.\<close>

definition name_column :: "string \<Rightarrow> nat \<Rightarrow> string" where
  "name_column prefix_name i = prefix_name @ str_nat i @ ''_Name''"

definition value_column :: "string \<Rightarrow> nat \<Rightarrow> string \<Rightarrow> string" where
  "value_column prefix_val i val_col_name = prefix_val @ str_nat i @ ''_'' @ val_col_name"

text \<open>
  Slot \<open>i\<close> of a row is present when the table has both of its columns and the row
  has a non-null name and a non-null value in them.
\<close>

definition slot_present ::
  "main_frame \<Rightarrow> string \<Rightarrow> string \<Rightarrow> string \<Rightarrow> main_row \<Rightarrow> nat \<Rightarrow> bool" where
  "slot_present df_main prefix_name prefix_val val_col_name row i =
     (name_column prefix_name i \<in> set (main_columns df_main)
      \<and> value_column prefix_val i val_col_name \<in> set (main_columns df_main)
      \<and> cells row (name_column prefix_name i) \<noteq> Null
      \<and> cells row (value_column prefix_val i val_col_name) \<noteq> Null)"

text \<open>The present slots of a table, row by row, the slots of a row by increasing index.\<close>

definition present_slots ::
  "main_frame \<Rightarrow> string \<Rightarrow> string \<Rightarrow> nat \<Rightarrow> string \<Rightarrow> (main_row \<times> nat) list" where
  "present_slots df_main prefix_name prefix_val count val_col_name =
     concat (map (\<lambda>row. map (Pair row)
                          (filter (slot_present df_main prefix_name prefix_val val_col_name row)
                                  [1..<count + 1]))
                 (main_rows df_main))"

text \<open>A long row is the row of a slot: its timestamp, its name as text, its value as a number.\<close>

definition row_of_slot ::
  "string \<Rightarrow> string \<Rightarrow> string \<Rightarrow> main_row \<times> nat \<Rightarrow> long_row \<Rightarrow> bool" where
  "row_of_slot prefix_name prefix_val val_col_name slot r =
     (Timestamp r = stamp (fst slot)
      \<and> ProcessName r = py_str (cells (fst slot) (name_column prefix_name (snd slot)))
      \<and> py_float (cells (fst slot) (value_column prefix_val (snd slot) val_col_name)) = Inr (Value r))"

text \<open>The distinct process names of a long table, and the largest value observed for a name.\<close>

definition process_names :: "long_row list \<Rightarrow> string set" where
  "process_names df = ProcessName ` set df"

definition peak :: "long_row list \<Rightarrow> string \<Rightarrow> real" where
  "peak df n = Max (set (map Value (filter (\<lambda>r. ProcessName r = n) df)))"

text \<open>
  The table a selection returns, and the names it selects: none when the table came
  back alone.
\<close>

fun table_of :: "selection \<Rightarrow> long_row list" where
  "table_of (Table_only df) = df"
| "table_of (Table_and_names df consumers) = df"

fun names_of :: "selection \<Rightarrow> string list" where
  "names_of (Table_only df) = []"
| "names_of (Table_and_names df consumers) = consumers"

text \<open>The traces drawn in one row of the chart.\<close>

definition series_in_row :: "nat \<Rightarrow> trace list \<Rightarrow> trace list" where
  "series_in_row n fig = filter (\<lambda>t. chart_row t = n) fig"

text \<open>
  The long table of a family, as lines 68 to 74 build it: the rows extracted from the
  merged table, grouped and summed.
\<close>

definition long_table ::
  "main_frame \<Rightarrow> string \<Rightarrow> string \<Rightarrow> nat \<Rightarrow> string \<Rightarrow> py_error + long_row list" where
  "long_table df_main prefix_name prefix_val count val_col_name =
     and_then (extract_top_data df_main prefix_name prefix_val count val_col_name) groupby_sum"

text \<open>
  A frame with a timestamp \<^verbatim>\<open>pd.to_datetime\<close> rejects, and a frame with a slot whose name
  and value are present and non-null and whose value \<^verbatim>\<open>float\<close> rejects.
\<close>

definition bad_timestamp :: "frame \<Rightarrow> bool" where
  "bad_timestamp df =
     (''Timestamp'' \<in> set (columns df) \<and> (\<exists>r\<in>set (rows df). isl (to_datetime (r ''Timestamp''))))"

definition bad_value :: "string \<Rightarrow> nat \<Rightarrow> string \<Rightarrow> frame \<Rightarrow> bool" where
  "bad_value prefix count val_col_name df =
     (\<exists>r\<in>set (rows df). \<exists>i\<in>set [1..<count + 1].
        name_column prefix i \<in> set (columns df)
      \<and> value_column prefix i val_col_name \<in> set (columns df)
      \<and> r (name_column prefix i) \<noteq> Null
      \<and> r (value_column prefix i val_col_name) \<noteq> Null
      \<and> isl (py_float (r (value_column prefix i val_col_name))))"

text \<open>
  The frames the loading loop keeps: those of the files that parse and have the marker
  column, in the order of the sorted file names. A column the kept frames have, that is a
  column of the merged table.
\<close>

definition valid_frames :: "(string \<Rightarrow> py_error + frame) \<Rightarrow> string list \<Rightarrow> frame list" where
  "valid_frames read_csv log_files = List.map_filter (valid_frame read_csv) (sort log_files)"

definition has_column :: "string \<Rightarrow> frame list \<Rightarrow> bool" where
  "has_column c dfs = (\<exists>df\<in>set dfs. c \<in> set (columns df))"

text \<open>
  A frame with a line that has a timestamp and a slot of the family whose name and value
  are present and non-null.
\<close>

definition dated_slot :: "string \<Rightarrow> nat \<Rightarrow> string \<Rightarrow> frame \<Rightarrow> bool" where
  "dated_slot prefix count val_col_name df =
     (''Timestamp'' \<in> set (columns df)
      \<and> (\<exists>r\<in>set (rows df). r ''Timestamp'' \<noteq> Null
           \<and> (\<exists>i\<in>set [1..<count + 1].
                 name_column prefix i \<in> set (columns df)
               \<and> value_column prefix i val_col_name \<in> set (columns df)
               \<and> r (name_column prefix i) \<noteq> Null
               \<and> r (value_column prefix i val_col_name) \<noteq> Null)))"

text \<open>The merged table of frames on which lines 38 to 42 raise nothing.\<close>

definition merged_table :: "frame list \<Rightarrow> main_frame" where
  "merged_table dfs = projr (merge_frames dfs)"

text \<open>Parts of the definitions above, named for the proofs.\<close>

definition padded :: "frame \<Rightarrow> (string \<Rightarrow> cell) \<Rightarrow> string \<Rightarrow> cell" where
  "padded df r = (\<lambda>c. if c \<in> set (columns df) then r c else Null)"

definition grouped_row :: "long_row list \<Rightarrow> int \<times> string \<Rightarrow> long_row" where
  "grouped_row data k =
     \<lparr>Timestamp = Some (fst k), ProcessName = snd k,
      Value = sum_list (map Value (group_rows data k))\<rparr>"

definition usage_of :: "long_row list \<Rightarrow> (long_row \<Rightarrow> real) \<Rightarrow> string \<Rightarrow> string \<times> real" where
  "usage_of df value_col n = (n, maximum (map value_col (filter (\<lambda>r. ProcessName r = n) df)))"

section \<open>Sample logs\<close>

text \<open>
  A line of a CSV file under its header, and the frame \<^verbatim>\<open>pd.read_csv\<close> makes of a header
  and lines. The three kinds of field of the logs: a text that is neither a number nor a
  date (a process name), a whole number, and a date with the instant it denotes.
\<close>

definition csv_row :: "(string \<times> cell) list \<Rightarrow> string \<Rightarrow> cell" where
  "csv_row kvs c = (case map_of kvs c of None \<Rightarrow> Null | Some v \<Rightarrow> v)"

definition csv_frame :: "string list \<Rightarrow> cell list list \<Rightarrow> frame" where
  "csv_frame header lines =
     \<lparr>columns = header, rows = map (\<lambda>line. csv_row (zip header line)) lines\<rparr>"

definition text_cell :: "string \<Rightarrow> cell" where
  "text_cell s = Cell s None None"

definition number_cell :: "string \<Rightarrow> int \<Rightarrow> cell" where
  "number_cell s n = Cell s (Some (of_int n)) (Some n)"

definition date_cell :: "string \<Rightarrow> int \<Rightarrow> cell" where
  "date_cell s t = Cell s None (Some t)"

text \<open>A log in the new format that names no process: the counters only.\<close>

definition quiet_log :: frame where
  "quiet_log = csv_frame
     [''Timestamp'', ''TotalMB'', ''UsedMB'', ''NonPagedPoolMB'', ''PagedPoolMB'']
     [[date_cell ''2024-01-01 00:00:00'' 0, number_cell ''16000'' 16000, number_cell ''8000'' 8000,
       number_cell ''100'' 100, number_cell ''200'' 200]]"

text \<open>A log whose only line has an empty \<^verbatim>\<open>Timestamp\<close> field.\<close>

definition undated_log :: frame where
  "undated_log = csv_frame
     [''Timestamp'', ''TotalMB'', ''UsedMB'', ''NonPagedPoolMB'', ''PagedPoolMB'',
      ''TopMem1_Name'', ''TopMem1_MB'', ''TopHandle1_Name'', ''TopHandle1_Count'']
     [[Null, number_cell ''16000'' 16000, number_cell ''8000'' 8000,
       number_cell ''100'' 100, number_cell ''200'' 200,
       text_cell ''chrome.exe'', number_cell ''900'' 900, text_cell ''lsm.exe'', number_cell ''4000'' 4000]]"

text \<open>A log with a memory value that is not a number.\<close>

definition garbled_log :: frame where
  "garbled_log = csv_frame
     [''Timestamp'', ''TotalMB'', ''UsedMB'', ''NonPagedPoolMB'', ''PagedPoolMB'',
      ''TopMem1_Name'', ''TopMem1_MB'', ''TopHandle1_Name'', ''TopHandle1_Count'']
     [[date_cell ''2024-01-01 00:00:00'' 0, number_cell ''16000'' 16000, number_cell ''8000'' 8000,
       number_cell ''100'' 100, number_cell ''200'' 200,
       text_cell ''chrome.exe'', text_cell ''900 MB'', text_cell ''lsm.exe'', number_cell ''4000'' 4000]]"

text \<open>A log with six memory consumers and four handle consumers.\<close>

definition busy_log :: frame where
  "busy_log = csv_frame
     [''Timestamp'', ''TotalMB'', ''UsedMB'', ''NonPagedPoolMB'', ''PagedPoolMB'',
      ''TopMem1_Name'', ''TopMem1_MB'', ''TopMem2_Name'', ''TopMem2_MB'',
      ''TopMem3_Name'', ''TopMem3_MB'', ''TopMem4_Name'', ''TopMem4_MB'',
      ''TopMem5_Name'', ''TopMem5_MB'', ''TopMem6_Name'', ''TopMem6_MB'',
      ''TopHandle1_Name'', ''TopHandle1_Count'', ''TopHandle2_Name'', ''TopHandle2_Count'',
      ''TopHandle3_Name'', ''TopHandle3_Count'', ''TopHandle4_Name'', ''TopHandle4_Count'']
     [[date_cell ''2024-01-01 00:00:00'' 0, number_cell ''16000'' 16000, number_cell ''8000'' 8000,
       number_cell ''100'' 100, number_cell ''200'' 200,
       text_cell ''a'', number_cell ''60'' 60, text_cell ''b'', number_cell ''50'' 50,
       text_cell ''c'', number_cell ''40'' 40, text_cell ''d'', number_cell ''30'' 30,
       text_cell ''e'', number_cell ''20'' 20, text_cell ''f'', number_cell ''10'' 10,
       text_cell ''p'', number_cell ''400'' 400, text_cell ''q'', number_cell ''300'' 300,
       text_cell ''r'', number_cell ''200'' 200, text_cell ''s'', number_cell ''100'' 100]]"

definition busy_figure :: "trace list" where
  "busy_figure =
     [\<lparr>chart_row = 1, name = TotalMB, x = [Some 0], y = Cells [number_cell ''16000'' 16000]\<rparr>,
      \<lparr>chart_row = 1, name = UsedMB, x = [Some 0], y = Cells [number_cell ''8000'' 8000]\<rparr>,
      \<lparr>chart_row = 2, name = NonPagedPoolMB, x = [Some 0], y = Cells [number_cell ''100'' 100]\<rparr>,
      \<lparr>chart_row = 2, name = PagedPoolMB, x = [Some 0], y = Cells [number_cell ''200'' 200]\<rparr>,
      \<lparr>chart_row = 3, name = Mem ''a'', x = [Some 0], y = Floats [60]\<rparr>,
      \<lparr>chart_row = 3, name = Mem ''b'', x = [Some 0], y = Floats [50]\<rparr>,
      \<lparr>chart_row = 3, name = Mem ''c'', x = [Some 0], y = Floats [40]\<rparr>,
      \<lparr>chart_row = 3, name = Mem ''d'', x = [Some 0], y = Floats [30]\<rparr>,
      \<lparr>chart_row = 3, name = Mem ''e'', x = [Some 0], y = Floats [20]\<rparr>,
      \<lparr>chart_row = 4, name = Handles ''p'', x = [Some 0], y = Floats [400]\<rparr>,
      \<lparr>chart_row = 4, name = Handles ''q'', x = [Some 0], y = Floats [300]\<rparr>,
      \<lparr>chart_row = 4, name = Handles ''r'', x = [Some 0], y = Floats [200]\<rparr>]"

text \<open>Two logs in the new format, of two lines and one line, and a log in the old format.\<close>

definition first_log :: frame where
  "first_log = csv_frame
     [''Timestamp'', ''NonPagedPoolMB'']
     [[date_cell ''2024-01-01 00:00:20'' 20, number_cell ''100'' 100],
      [date_cell ''2024-01-01 00:00:10'' 10, number_cell ''101'' 101]]"

definition second_log :: frame where
  "second_log = csv_frame
     [''Timestamp'', ''NonPagedPoolMB'']
     [[date_cell ''2024-01-01 00:00:15'' 15, number_cell ''102'' 102]]"

definition legacy_log :: frame where
  "legacy_log = csv_frame
     [''Timestamp'', ''TotalMB'', ''UsedMB'']
     [[date_cell ''2023-01-01 00:00:00'' (-5), number_cell ''16000'' 16000, number_cell ''8000'' 8000],
      [date_cell ''2023-01-01 00:00:01'' (-4), number_cell ''16000'' 16000, number_cell ''8001'' 8001]]"

text \<open>A directory with these logs; every other name is a file that cannot be read.\<close>

definition read_logs :: "string \<Rightarrow> py_error + frame" where
  "read_logs f =
     (if f = ''a_log.csv'' then Inr first_log
      else if f = ''b_log.csv'' then Inr second_log
      else if f = ''old_log.csv'' then Inr legacy_log
      else if f = ''busy_log.csv'' then Inr busy_log
      else if f = ''garbled_log.csv'' then Inr garbled_log
      else if f = ''quiet_log.csv'' then Inr quiet_log
      else if f = ''undated_log.csv'' then Inr undated_log
      else Inl (ReadError ''No such file or directory''))"

text \<open>
  A merged table of two lines. In the first \<^verbatim>\<open>chrome.exe\<close> fills the memory slots 1 and
  2, with 10 and 15, \<^verbatim>\<open>lsm.exe\<close> fills slot 3, and slot 4 is empty; in the second, a minute
  later, \<^verbatim>\<open>chrome.exe\<close> fills slot 1 with 40 and \<^verbatim>\<open>lsm.exe\<close> slot 2.
\<close>

definition twice_listed :: main_frame where
  "twice_listed =
     \<lparr>main_columns =
        [''Timestamp'', ''NonPagedPoolMB'', ''TopMem1_Name'', ''TopMem1_MB'', ''TopMem2_Name'',
         ''TopMem2_MB'', ''TopMem3_Name'', ''TopMem3_MB'', ''TopMem4_Name'', ''TopMem4_MB''],
      main_rows =
        [\<lparr>stamp = Some 0,
          cells = csv_row
            [(''Timestamp'', date_cell ''2024-01-01 00:00:00'' 0),
             (''NonPagedPoolMB'', number_cell ''100'' 100),
             (''TopMem1_Name'', text_cell ''chrome.exe''), (''TopMem1_MB'', number_cell ''10'' 10),
             (''TopMem2_Name'', text_cell ''chrome.exe''), (''TopMem2_MB'', number_cell ''15'' 15),
             (''TopMem3_Name'', text_cell ''lsm.exe''), (''TopMem3_MB'', number_cell ''7'' 7),
             (''TopMem4_Name'', Null), (''TopMem4_MB'', Null)]\<rparr>,
         \<lparr>stamp = Some 60,
          cells = csv_row
            [(''Timestamp'', date_cell ''2024-01-01 00:01:00'' 60),
             (''NonPagedPoolMB'', number_cell ''101'' 101),
             (''TopMem1_Name'', text_cell ''chrome.exe''), (''TopMem1_MB'', number_cell ''40'' 40),
             (''TopMem2_Name'', text_cell ''lsm.exe''), (''TopMem2_MB'', number_cell ''8'' 8),
             (''TopMem3_Name'', Null), (''TopMem3_MB'', Null),
             (''TopMem4_Name'', Null), (''TopMem4_MB'', Null)]\<rparr>]\<rparr>"

text \<open>A long table of three processes at two instants.\<close>

definition sample_long :: "long_row list" where
  "sample_long =
     [\<lparr>Timestamp = Some 1, ProcessName = ''a'', Value = 10\<rparr>,
      \<lparr>Timestamp = Some 1, ProcessName = ''b'', Value = 20\<rparr>,
      \<lparr>Timestamp = Some 1, ProcessName = ''c'', Value = 25\<rparr>,
      \<lparr>Timestamp = Some 2, ProcessName = ''a'', Value = 30\<rparr>,
      \<lparr>Timestamp = Some 2, ProcessName = ''b'', Value = 5\<rparr>,
      \<lparr>Timestamp = Some 2, ProcessName = ''c'', Value = 24\<rparr>]"

section \<open>Lemmas\<close>

subsection \<open>Lists\<close>

lemma map_filter_set: "set (List.map_filter g xs) = {k. \<exists>x\<in>set xs. g x = Some k}"
  by (induction xs) (auto split: option.splits)

lemma map_filter_Nil_iff: "List.map_filter g xs = [] \<longleftrightarrow> (\<forall>x\<in>set xs. g x = None)"
  by (induction xs) (auto split: option.splits)

lemma maximum_Max: "vs \<noteq> [] \<Longrightarrow> maximum vs = Max (set vs)"
  by (induction vs rule: maximum.induct) (auto simp: max_def)

lemma and_then_Inr: "and_then m f = Inr v \<longleftrightarrow> (\<exists>u. m = Inr u \<and> f u = Inr v)"
  by (cases m) auto

subsection \<open>Loading and merging\<close>

lemma load_files_frames:
  "snd (load_files read_csv fs) = List.map_filter (valid_frame read_csv) fs"
  by (induction fs)
     (auto simp: valid_frame_def split: prod.splits sum.splits)

lemma load_files_eq:
  "load_files read_csv fs =
     (fst (load_files read_csv fs), List.map_filter (valid_frame read_csv) fs)"
  by (metis load_files_frames prod.collapse)

lemma load_files_skip:
  "f \<in> set fs \<Longrightarrow> read_csv f = Inr df \<Longrightarrow> ''NonPagedPoolMB'' \<notin> set (columns df) \<Longrightarrow>
   Print (''Skipping '' @ f @ '': Old format (missing NonPagedPoolMB)'')
     \<in> set (fst (load_files read_csv fs))"
  by (induction fs) (auto split: prod.splits sum.splits)

lemma load_files_error:
  "f \<in> set fs \<Longrightarrow> read_csv f = Inl e \<Longrightarrow> ErrorReading f e \<in> set (fst (load_files read_csv fs))"
  by (induction fs) (auto split: prod.splits sum.splits)

lemma fst_generate_report:
  "log_files \<noteq> [] \<Longrightarrow>
   set (fst (load_files read_csv (sort log_files))) \<subseteq> set (fst (generate_report log_files read_csv))"
  by (auto simp: generate_report_def Let_def split: prod.splits sum.splits)

lemma generate_report_Returned:
  "snd (generate_report log_files read_csv) = Returned \<longleftrightarrow>
     log_files = [] \<or> (\<forall>f\<in>set log_files. \<not> valid_file read_csv f)"
proof -
  have "snd (load_files read_csv (sort log_files)) = [] \<longleftrightarrow>
          (\<forall>f\<in>set log_files. \<not> valid_file read_csv f)"
    by (simp add: load_files_frames map_filter_Nil_iff valid_file_def)
  then show ?thesis
    by (auto simp: generate_report_def Let_def split: prod.splits sum.splits)
qed

lemma generate_report_no_data:
  assumes "log_files \<noteq> []" and "\<forall>f\<in>set log_files. \<not> valid_file read_csv f"
  shows "generate_report log_files read_csv =
     (FoundLogFiles (sort log_files) # fst (load_files read_csv (sort log_files))
        @ [Print ''Could not read any valid data (New Format).''],
      Returned)"
proof -
  from assms(2) have "snd (load_files read_csv (sort log_files)) = []"
    by (simp add: load_files_frames map_filter_Nil_iff valid_file_def)
  with assms(1) show ?thesis
    by (cases "load_files read_csv (sort log_files)") (simp add: generate_report_def Let_def)
qed

lemma generate_report_run:
  assumes "log_files \<noteq> []" and "List.map_filter (valid_frame read_csv) (sort log_files) \<noteq> []"
  shows "snd (generate_report log_files read_csv) =
     (case and_then (merge_frames (List.map_filter (valid_frame read_csv) (sort log_files)))
             build_figure of
        Inl e \<Rightarrow> Raised e
      | Inr fig \<Rightarrow> Written fig)"
  using assms
  by (subst generate_report_def, subst load_files_eq) (simp add: Let_def split: sum.splits)

lemma generate_report_Written:
  assumes "generate_report log_files read_csv = (msgs, Written fig)"
  shows "\<exists>df_main.
           merge_frames (List.map_filter (valid_frame read_csv) (sort log_files)) = Inr df_main
         \<and> build_figure df_main = Inr fig"
proof -
  from assms have w: "snd (generate_report log_files read_csv) = Written fig" by simp
  then have "snd (generate_report log_files read_csv) \<noteq> Returned" by simp
  then have "log_files \<noteq> []" "List.map_filter (valid_frame read_csv) (sort log_files) \<noteq> []"
    by (auto simp: generate_report_Returned map_filter_Nil_iff valid_file_def)
  from generate_report_run [OF this] w show ?thesis
    by (auto split: sum.splits elim: and_then.elims)
qed

lemma pd_concat_rows: "rows (pd_concat dfs) = concat (map (\<lambda>df. map (padded df) (rows df)) dfs)"
  by (simp add: pd_concat_def padded_def [abs_def])

lemma pd_concat_columns: "set (columns (pd_concat dfs)) = (\<Union>df\<in>set dfs. set (columns df))"
  by (simp add: pd_concat_def)

lemma pd_concat_length:
  "length (rows (pd_concat dfs)) = sum_list (map (\<lambda>df. length (rows df)) dfs)"
  by (simp add: pd_concat_def length_concat comp_def)

lemma assign_timestamps_length: "assign_timestamps rs = Inr ms \<Longrightarrow> length ms = length rs"
  by (induction rs arbitrary: ms) (auto split: sum.splits)

lemma assign_timestamps_cells: "assign_timestamps rs = Inr ms \<Longrightarrow> map cells ms = rs"
  by (induction rs arbitrary: ms) (auto split: sum.splits)

lemma assign_timestamps_fail:
  "r \<in> set rs \<Longrightarrow> isl (to_datetime (r ''Timestamp'')) \<Longrightarrow> isl (assign_timestamps rs)"
  by (induction rs) (auto split: sum.splits)

lemma assign_timestamps_ok:
  "\<forall>r\<in>set rs. \<not> isl (to_datetime (r ''Timestamp'')) \<Longrightarrow> \<not> isl (assign_timestamps rs)"
  by (induction rs) (auto split: sum.splits)

lemma merge_frames_length:
  "merge_frames all_dfs = Inr df_main \<Longrightarrow>
   length (main_rows df_main) = sum_list (map (\<lambda>df. length (rows df)) all_dfs)"
  by (auto simp: merge_frames_def Let_def sort_values_def pd_concat_length
           dest!: assign_timestamps_length split: if_splits sum.splits)

lemma merge_frames_sorted:
  "merge_frames all_dfs = Inr df_main \<Longrightarrow>
   sorted (map (\<lambda>r. stamp_key (stamp r)) (main_rows df_main))"
  by (auto simp: merge_frames_def Let_def sort_values_def split: if_splits sum.splits)

lemma merge_frames_Inr:
  assumes "merge_frames dfs = Inr m"
  shows "main_columns m = columns (pd_concat dfs)"
    and "cells ` set (main_rows m) = set (rows (pd_concat dfs))"
proof -
  from assms obtain ms where ms: "assign_timestamps (rows (pd_concat dfs)) = Inr ms"
    and m: "m = \<lparr>main_columns = columns (pd_concat dfs), main_rows = sort_values ms\<rparr>"
    by (auto simp: merge_frames_def Let_def split: if_splits sum.splits)
  show "main_columns m = columns (pd_concat dfs)" by (simp add: m)
  have "cells ` set (main_rows m) = set (map cells ms)"
    by (simp add: m sort_values_def)
  then show "cells ` set (main_rows m) = set (rows (pd_concat dfs))"
    by (simp only: assign_timestamps_cells [OF ms])
qed

lemma merge_frames_succeeds:
  assumes "\<exists>df\<in>set dfs. ''Timestamp'' \<in> set (columns df)"
    and "\<forall>df\<in>set dfs. \<not> bad_timestamp df"
  shows "\<not> isl (merge_frames dfs)"
proof -
  have "\<forall>r\<in>set (rows (pd_concat dfs)). \<not> isl (to_datetime (r ''Timestamp''))"
  proof
    fix r
    assume "r \<in> set (rows (pd_concat dfs))"
    then obtain df r' where r: "df \<in> set dfs" "r' \<in> set (rows df)" "r = padded df r'"
      by (auto simp: pd_concat_rows)
    with assms(2) show "\<not> isl (to_datetime (r ''Timestamp''))"
      by (cases "''Timestamp'' \<in> set (columns df)") (auto simp: bad_timestamp_def padded_def)
  qed
  then have "\<not> isl (assign_timestamps (rows (pd_concat dfs)))"
    by (rule assign_timestamps_ok)
  with assms(1) show ?thesis
    by (auto simp: merge_frames_def Let_def pd_concat_columns split: sum.splits)
qed

lemma bad_timestamp_raises:
  assumes "df \<in> set dfs" and "bad_timestamp df"
  shows "isl (merge_frames dfs)"
proof -
  from assms(2) obtain r where r: "r \<in> set (rows df)" "''Timestamp'' \<in> set (columns df)"
    "isl (to_datetime (r ''Timestamp''))"
    by (auto simp: bad_timestamp_def)
  from assms(1) r(1) have "padded df r \<in> set (rows (pd_concat dfs))"
    by (auto simp: pd_concat_rows)
  moreover from r(2,3) have "isl (to_datetime (padded df r ''Timestamp''))"
    by (simp add: padded_def)
  ultimately have "isl (assign_timestamps (rows (pd_concat dfs)))"
    by (rule assign_timestamps_fail)
  then show ?thesis
    by (auto simp: merge_frames_def Let_def split: sum.splits)
qed

subsection \<open>The reshaper\<close>

lemma py_float_notna: "c \<noteq> Null \<Longrightarrow> py_float c = Inl e \<Longrightarrow> e = ValueError"
  by (cases c rule: py_float.cases) auto

lemma extract_slots_Cons:
  "extract_slots (main_columns df) row pn pv unit (i # is) data =
     (if slot_present df pn pv unit row i then
        (case py_float (cells row (value_column pv i unit)) of
           Inl e \<Rightarrow> Inl e
         | Inr v \<Rightarrow> extract_slots (main_columns df) row pn pv unit is
              (data @ [\<lparr>Timestamp = stamp row, ProcessName = py_str (cells row (name_column pn i)),
                        Value = v\<rparr>]))
      else extract_slots (main_columns df) row pn pv unit is data)"
  by (auto simp: slot_present_def name_column_def value_column_def pd_notna_def Let_def
        split: sum.splits)

lemma extract_slots_ok:
  "\<forall>i\<in>set is. slot_present df pn pv unit row i \<longrightarrow>
       \<not> isl (py_float (cells row (value_column pv i unit))) \<Longrightarrow>
   \<exists>new. extract_slots (main_columns df) row pn pv unit is data = Inr (data @ new)
        \<and> list_all2 (row_of_slot pn pv unit)
             (map (Pair row) (filter (slot_present df pn pv unit row) is)) new"
proof (induction "is" arbitrary: data)
  case Nil
  then show ?case by simp
next
  case (Cons i "is")
  show ?case
  proof (cases "slot_present df pn pv unit row i")
    case True
    with Cons.prems obtain v where v: "py_float (cells row (value_column pv i unit)) = Inr v"
      by (cases "py_float (cells row (value_column pv i unit))") auto
    let ?r = "\<lparr>Timestamp = stamp row, ProcessName = py_str (cells row (name_column pn i)),
               Value = v\<rparr>"
    from Cons.IH [of "data @ [?r]"] Cons.prems obtain new where
      new: "extract_slots (main_columns df) row pn pv unit is (data @ [?r])
              = Inr ((data @ [?r]) @ new)"
        "list_all2 (row_of_slot pn pv unit)
           (map (Pair row) (filter (slot_present df pn pv unit row) is)) new"
      by auto
    have "row_of_slot pn pv unit (row, i) ?r"
      by (simp add: row_of_slot_def v)
    with True v new show ?thesis
      by (intro exI [of _ "?r # new"]) (simp add: extract_slots_Cons del: extract_slots.simps)
  next
    case False
    from Cons.IH [of data] Cons.prems obtain new where
      new: "extract_slots (main_columns df) row pn pv unit is data = Inr (data @ new)"
        "list_all2 (row_of_slot pn pv unit)
           (map (Pair row) (filter (slot_present df pn pv unit row) is)) new"
      by auto
    with False show ?thesis
      by (intro exI [of _ new]) (simp add: extract_slots_Cons del: extract_slots.simps)
  qed
qed

lemma extract_slots_error:
  fixes df :: main_frame
  shows "extract_slots (main_columns df) row pn pv unit is data = Inl e \<Longrightarrow> e = ValueError"
proof (induction "is" arbitrary: data)
  case Nil
  then show ?case by simp
next
  case (Cons i "is")
  show ?case
  proof (cases "slot_present df pn pv unit row i")
    case True
    then have nn: "cells row (value_column pv i unit) \<noteq> Null"
      by (simp add: slot_present_def)
    show ?thesis
    proof (cases "py_float (cells row (value_column pv i unit))")
      case (Inl e')
      with True Cons.prems have "e' = e"
        by (simp add: extract_slots_Cons del: extract_slots.simps)
      with py_float_notna [OF nn Inl] show ?thesis by simp
    next
      case (Inr v)
      with True Cons.prems Cons.IH show ?thesis
        by (simp add: extract_slots_Cons del: extract_slots.simps)
    qed
  next
    case False
    with Cons.prems Cons.IH show ?thesis
      by (simp add: extract_slots_Cons del: extract_slots.simps)
  qed
qed

lemma extract_slots_fail:
  "i \<in> set is \<Longrightarrow> slot_present df pn pv unit row i \<Longrightarrow>
   isl (py_float (cells row (value_column pv i unit))) \<Longrightarrow>
   isl (extract_slots (main_columns df) row pn pv unit is data)"
proof (induction "is" arbitrary: data)
  case Nil
  then show ?case by simp
next
  case (Cons j "is")
  show ?case
  proof (cases "j = i")
    case True
    with Cons.prems show ?thesis
      by (auto simp: extract_slots_Cons simp del: extract_slots.simps split: sum.splits)
  next
    case False
    with Cons.prems have "i \<in> set is" by auto
    from Cons.IH [OF this Cons.prems(2,3)] show ?thesis
      by (auto simp: extract_slots_Cons simp del: extract_slots.simps split: sum.splits)
  qed
qed

lemma extract_rows_ok:
  "\<forall>row\<in>set rs. \<forall>i\<in>set [1..<count + 1]. slot_present df pn pv unit row i \<longrightarrow>
       \<not> isl (py_float (cells row (value_column pv i unit))) \<Longrightarrow>
   \<exists>new. extract_rows (main_columns df) rs pn pv count unit data = Inr (data @ new)
        \<and> list_all2 (row_of_slot pn pv unit)
             (concat (map (\<lambda>row. map (Pair row)
                (filter (slot_present df pn pv unit row) [1..<count + 1])) rs))
             new"
proof (induction rs arbitrary: data)
  case Nil
  then show ?case by simp
next
  case (Cons row rs)
  from Cons.prems have "\<forall>i\<in>set [1..<count + 1]. slot_present df pn pv unit row i \<longrightarrow>
       \<not> isl (py_float (cells row (value_column pv i unit)))"
    by simp
  from extract_slots_ok [OF this, of data] obtain new1 where
    n1: "extract_slots (main_columns df) row pn pv unit [1..<count + 1] data = Inr (data @ new1)"
      "list_all2 (row_of_slot pn pv unit)
         (map (Pair row) (filter (slot_present df pn pv unit row) [1..<count + 1])) new1"
    by blast
  from Cons.IH [of "data @ new1"] Cons.prems obtain new2 where
    n2: "extract_rows (main_columns df) rs pn pv count unit (data @ new1)
           = Inr ((data @ new1) @ new2)"
      "list_all2 (row_of_slot pn pv unit)
         (concat (map (\<lambda>row. map (Pair row)
            (filter (slot_present df pn pv unit row) [1..<count + 1])) rs))
         new2"
    by auto
  from n1 n2 show ?case
    by (intro exI [of _ "new1 @ new2"]) (simp add: list_all2_appendI)
qed

lemma extract_rows_error:
  fixes df :: main_frame
  shows "extract_rows (main_columns df) rs pn pv count unit data = Inl e \<Longrightarrow> e = ValueError"
  by (induction rs arbitrary: data) (auto split: sum.splits dest: extract_slots_error)

lemma extract_rows_fail:
  "row \<in> set rs \<Longrightarrow> i \<in> set [1..<count + 1] \<Longrightarrow> slot_present df pn pv unit row i \<Longrightarrow>
   isl (py_float (cells row (value_column pv i unit))) \<Longrightarrow>
   isl (extract_rows (main_columns df) rs pn pv count unit data)"
proof (induction rs arbitrary: data)
  case Nil
  then show ?case by simp
next
  case (Cons r rs)
  show ?case
  proof (cases "extract_slots (main_columns df) r pn pv unit [1..<count + 1] data")
    case (Inl e')
    then show ?thesis by simp
  next
    case (Inr d)
    have "row \<noteq> r"
    proof
      assume "row = r"
      with Cons.prems extract_slots_fail [of i "[1..<count + 1]" df pn pv unit r data] Inr
      show False by simp
    qed
    with Cons.prems have "row \<in> set rs" by simp
    from Cons.IH [OF this Cons.prems(2-4)] Inr show ?thesis by simp
  qed
qed

lemma set_present_slots:
  "set (present_slots m pn pv count u) =
     {(row, i). row \<in> set (main_rows m) \<and> 1 \<le> i \<and> i \<le> count \<and> slot_present m pn pv u row i}"
proof -
  have "set [1..<count + 1] = {i. 1 \<le> i \<and> i \<le> count}"
    unfolding set_upt by auto
  then show ?thesis
    unfolding present_slots_def set_concat set_map set_filter by auto
qed

lemma extract_top_data_ok:
  assumes "\<forall>slot\<in>set (present_slots df pn pv count unit).
             \<not> isl (py_float (cells (fst slot) (value_column pv (snd slot) unit)))"
  shows "\<exists>raw. extract_top_data df pn pv count unit = Inr raw
           \<and> list_all2 (row_of_slot pn pv unit) (present_slots df pn pv count unit) raw"
proof -
  from assms have "\<forall>row\<in>set (main_rows df). \<forall>i\<in>set [1..<count + 1].
       slot_present df pn pv unit row i \<longrightarrow>
       \<not> isl (py_float (cells row (value_column pv i unit)))"
    by (fastforce simp: present_slots_def)
  from extract_rows_ok [OF this, of "[]"] show ?thesis
    by (simp add: extract_top_data_def present_slots_def)
qed

lemma extract_top_data_fail:
  assumes "slot \<in> set (present_slots df pn pv count unit)"
    and "isl (py_float (cells (fst slot) (value_column pv (snd slot) unit)))"
  shows "extract_top_data df pn pv count unit = Inl ValueError"
proof -
  from assms(1) have "fst slot \<in> set (main_rows df)" "snd slot \<in> set [1..<count + 1]"
    "slot_present df pn pv unit (fst slot) (snd slot)"
    by (auto simp: present_slots_def)
  from extract_rows_fail [OF this assms(2), of "[]"]
    extract_rows_error [of df _ pn pv count unit "[]"]
  show ?thesis
    by (cases "extract_top_data df pn pv count unit") (auto simp: extract_top_data_def)
qed

lemma bad_value_raises:
  assumes "df \<in> set dfs" and "bad_value p count u df" and "merge_frames dfs = Inr m"
  shows "extract_top_data m p p count u = Inl ValueError"
proof -
  from assms(2) obtain r i where r: "r \<in> set (rows df)" and i: "i \<in> set [1..<count + 1]"
    and c: "name_column p i \<in> set (columns df)" "value_column p i u \<in> set (columns df)"
    and n: "r (name_column p i) \<noteq> Null" "r (value_column p i u) \<noteq> Null"
    and f: "isl (py_float (r (value_column p i u)))"
    unfolding bad_value_def by blast
  from assms(1) r have "padded df r \<in> set (rows (pd_concat dfs))"
    by (auto simp: pd_concat_rows)
  with merge_frames_Inr(2) [OF assms(3)] obtain mr where
    mr: "mr \<in> set (main_rows m)" "cells mr = padded df r"
    by (metis imageE)
  from assms(1) c have "name_column p i \<in> set (main_columns m)"
    "value_column p i u \<in> set (main_columns m)"
    by (auto simp: merge_frames_Inr(1) [OF assms(3)] pd_concat_columns)
  with c n mr have "slot_present m p p u mr i"
    by (simp add: slot_present_def padded_def)
  with mr(1) i have "(mr, i) \<in> set (present_slots m p p count u)"
    by (auto simp: present_slots_def)
  moreover from c f mr(2) have
    "isl (py_float (cells (fst (mr, i)) (value_column p (snd (mr, i)) u)))"
    by (simp add: padded_def)
  ultimately show ?thesis
    by (rule extract_top_data_fail)
qed

lemma group_key_grouped_row: "group_key (grouped_row data k) = Some k"
  by (simp add: grouped_row_def)

lemma groupby_sum_eq:
  "raw \<noteq> [] \<Longrightarrow>
   groupby_sum raw = Inr (map (grouped_row raw) (sort (remdups (List.map_filter group_key raw))))"
  by (simp add: groupby_sum_def grouped_row_def)

subsection \<open>The top-K selector\<close>

lemma max_usage_eq:
  "max_usage df value_col =
     sort_key (\<lambda>p. - snd p) (map (usage_of df value_col) (sort (remdups (map ProcessName df))))"
  by (simp add: max_usage_def usage_of_def [abs_def])

lemma fst_usage_of: "fst (usage_of df value_col n) = n"
  by (simp add: usage_of_def)

lemma set_max_usage_names: "set (map fst (max_usage df value_col)) = process_names df"
  by (simp add: max_usage_eq process_names_def image_image fst_usage_of)

lemma distinct_max_usage_names: "distinct (map fst (max_usage df value_col))"
proof -
  have "inj_on fst (usage_of df value_col ` process_names df)"
  proof (rule inj_onI)
    fix p q
    assume "p \<in> usage_of df value_col ` process_names df"
      and "q \<in> usage_of df value_col ` process_names df" and eq: "fst p = fst q"
    then obtain a b where "p = usage_of df value_col a" "q = usage_of df value_col b"
      by blast
    with eq show "p = q" by (simp add: fst_usage_of)
  qed
  moreover have "inj_on (usage_of df value_col) (process_names df)"
    by (rule inj_onI) (metis fst_usage_of)
  ultimately show ?thesis
    by (simp add: max_usage_eq distinct_map process_names_def)
qed

lemma length_max_usage: "length (max_usage df value_col) = card (process_names df)"
  using distinct_card [OF distinct_max_usage_names, of df value_col]
  by (simp add: set_max_usage_names del: set_map)

lemma snd_max_usage:
  assumes "p \<in> set (max_usage df Value)"
  shows "snd p = peak df (fst p)"
proof -
  from assms obtain n where n: "n \<in> process_names df" "p = usage_of df Value n"
    by (auto simp: max_usage_eq process_names_def)
  then have "filter (\<lambda>r. ProcessName r = n) df \<noteq> []"
    by (auto simp: process_names_def filter_empty_conv)
  then show ?thesis
    by (simp add: n usage_of_def peak_def maximum_Max)
qed

lemma sorted_max_usage:
  "sorted_wrt (\<lambda>a b. peak df b \<le> peak df a) (map fst (max_usage df Value))"
proof -
  have "sorted (map (\<lambda>p. - snd p) (max_usage df Value))"
    by (simp add: max_usage_def)
  then have "sorted_wrt (\<lambda>p q. snd q \<le> snd p) (max_usage df Value)"
    by (simp add: sorted_map sorted_wrt_iff_nth_less)
  then have "sorted_wrt (\<lambda>p q. peak df (fst q) \<le> peak df (fst p)) (max_usage df Value)"
    by (rule sorted_wrt_mono_rel [rotated]) (simp add: snd_max_usage)
  then show ?thesis
    by (simp add: sorted_wrt_map)
qed

lemma filter_top_consumers_nonempty:
  "df \<noteq> [] \<Longrightarrow> filter_top_consumers df value_col top_n =
     Table_and_names
       (filter (\<lambda>r. ProcessName r \<in> set (take top_n (map fst (max_usage df value_col)))) df)
       (take top_n (map fst (max_usage df value_col)))"
  by (simp add: filter_top_consumers_def Let_def take_map)

lemma names_of_subset:
  "set (names_of (filter_top_consumers df value_col K)) \<subseteq> process_names df"
proof (cases "df = []")
  case True
  then show ?thesis by (simp add: filter_top_consumers_def)
next
  case False
  have "set (take K (map fst (max_usage df value_col))) \<subseteq> set (map fst (max_usage df value_col))"
    by (rule set_take_subset)
  with False show ?thesis
    by (simp add: filter_top_consumers_nonempty set_max_usage_names del: set_map)
qed

lemma table_of_eq:
  "table_of (filter_top_consumers df value_col K) =
     filter (\<lambda>r. ProcessName r \<in> set (names_of (filter_top_consumers df value_col K))) df"
  by (cases "df = []")
     (simp_all add: filter_top_consumers_nonempty, simp add: filter_top_consumers_def)

lemma take_all_names:
  assumes "card (process_names df) \<le> K"
  shows "take K (map fst (max_usage df value_col)) = map fst (max_usage df value_col)"
  using assms by (simp add: length_max_usage)

lemma length_names_of:
  "length (names_of (filter_top_consumers df value_col K)) = min K (card (process_names df))"
  by (cases "df = []")
     (simp_all add: filter_top_consumers_nonempty length_max_usage,
      simp add: filter_top_consumers_def process_names_def)

lemma process_names_filter:
  "N \<subseteq> process_names df \<Longrightarrow> process_names (filter (\<lambda>r. ProcessName r \<in> N) df) = N"
  by (auto simp: process_names_def)

lemma selected_table_nonempty:
  assumes "df \<noteq> []" and "0 < K"
  shows "table_of (filter_top_consumers df value_col K) \<noteq> []"
proof -
  from assms(1) have "process_names df \<noteq> {}" by (simp add: process_names_def)
  then have "max_usage df value_col \<noteq> []"
    using length_max_usage [of df value_col] by (auto simp: card_eq_0_iff process_names_def)
  then obtain p ps where ps: "max_usage df value_col = p # ps"
    by (cases "max_usage df value_col") auto
  from assms(2) obtain k where k: "K = Suc k" by (cases K) auto
  have "fst p \<in> set (map fst (max_usage df value_col))" by (simp add: ps)
  then have "fst p \<in> process_names df" by (simp only: set_max_usage_names)
  then obtain r where r: "r \<in> set df" "ProcessName r = fst p"
    by (auto simp: process_names_def)
  have "fst p \<in> set (take K (map fst (max_usage df value_col)))"
    by (simp add: ps k)
  with r have "r \<in> set (table_of (filter_top_consumers df value_col K))"
    by (simp add: filter_top_consumers_nonempty assms(1))
  then show ?thesis by auto
qed

subsection \<open>The chart\<close>

lemma column_trace_row: "column_trace df_main n s col = Inr t \<Longrightarrow> chart_row t = n"
  by (auto simp: column_trace_def split: sum.splits)

lemma process_traces_rows: "t \<in> set (process_traces n label df consumers) \<Longrightarrow> chart_row t = n"
  by (auto simp: process_traces_def Let_def split: if_splits)

lemma series_in_row_process_traces:
  "series_in_row m (process_traces n label df consumers) =
     (if m = n then process_traces n label df consumers else [])"
  by (auto simp: series_in_row_def filter_empty_conv filter_id_conv dest: process_traces_rows)

lemma names_process_traces:
  "df \<noteq> [] \<Longrightarrow> map name (process_traces n label df consumers) = map label consumers"
  by (simp add: process_traces_def Let_def comp_def)

lemma unpack_Inr: "unpack sel = Inr (df, names) \<Longrightarrow> sel = Table_and_names df names"
  by (cases sel) auto

lemma build_figure_Inr:
  assumes "build_figure df_main = Inr fig"
  shows "\<exists>df_mem df_handle.
           long_table df_main ''TopMem'' ''TopMem'' 10 ''MB'' = Inr df_mem
         \<and> long_table df_main ''TopHandle'' ''TopHandle'' 5 ''Count'' = Inr df_handle
         \<and> df_mem \<noteq> [] \<and> df_handle \<noteq> []
         \<and> series_in_row 3 fig =
             process_traces 3 Mem (table_of (filter_top_consumers df_mem Value 5))
               (names_of (filter_top_consumers df_mem Value 5))
         \<and> series_in_row 4 fig =
             process_traces 4 Handles (table_of (filter_top_consumers df_handle Value 3))
               (names_of (filter_top_consumers df_handle Value 3))"
proof -
  from assms obtain df_mem_raw df_mem df_handle_raw df_handle fm cm fh ch t1 t2 t3 t4 where
    s: "extract_top_data df_main ''TopMem'' ''TopMem'' 10 ''MB'' = Inr df_mem_raw"
      "groupby_sum df_mem_raw = Inr df_mem"
      "extract_top_data df_main ''TopHandle'' ''TopHandle'' 5 ''Count'' = Inr df_handle_raw"
      "groupby_sum df_handle_raw = Inr df_handle"
      "unpack (filter_top_consumers df_mem Value 5) = Inr (fm, cm)"
      "unpack (filter_top_consumers df_handle Value 3) = Inr (fh, ch)"
      "column_trace df_main 1 TotalMB ''TotalMB'' = Inr t1"
      "column_trace df_main 1 UsedMB ''UsedMB'' = Inr t2"
      "column_trace df_main 2 NonPagedPoolMB ''NonPagedPoolMB'' = Inr t3"
      "column_trace df_main 2 PagedPoolMB ''PagedPoolMB'' = Inr t4"
      and fig: "fig = [t1, t2, t3, t4] @ process_traces 3 Mem fm cm @ process_traces 4 Handles fh ch"
    unfolding build_figure_def and_then_Inr by (auto simp: and_then_Inr)
  from s(5,6) have sel: "filter_top_consumers df_mem Value 5 = Table_and_names fm cm"
    "filter_top_consumers df_handle Value 3 = Table_and_names fh ch"
    by (auto dest: unpack_Inr)
  then have ne: "df_mem \<noteq> []" "df_handle \<noteq> []"
    by (auto simp: filter_top_consumers_def)
  from s(7-10) have rows: "chart_row t1 = 1" "chart_row t2 = 1" "chart_row t3 = 2" "chart_row t4 = 2"
    by (auto dest: column_trace_row)
  have "series_in_row 3 fig = process_traces 3 Mem fm cm"
    unfolding fig using rows series_in_row_process_traces [of 3 3 Mem fm cm]
      series_in_row_process_traces [of 3 4 Handles fh ch]
    by (simp add: series_in_row_def)
  moreover have "series_in_row 4 fig = process_traces 4 Handles fh ch"
    unfolding fig using rows series_in_row_process_traces [of 4 3 Mem fm cm]
      series_in_row_process_traces [of 4 4 Handles fh ch]
    by (simp add: series_in_row_def)
  ultimately show ?thesis
    using s(1-4) sel ne by (simp add: long_table_def)
qed

lemma build_figure_mem_fail:
  "extract_top_data m ''TopMem'' ''TopMem'' 10 ''MB'' = Inl e \<Longrightarrow> build_figure m = Inl e"
  by (simp add: build_figure_def)

lemma build_figure_handle_fail:
  "extract_top_data m ''TopHandle'' ''TopHandle'' 5 ''Count'' = Inl e \<Longrightarrow> isl (build_figure m)"
  by (cases "extract_top_data m ''TopMem'' ''TopMem'' 10 ''MB''";
      cases "groupby_sum (projr (extract_top_data m ''TopMem'' ''TopMem'' 10 ''MB''))")
     (simp_all add: build_figure_def)

subsection \<open>When a run writes the report\<close>

lemma group_key_Some:
  "group_key r = Some k \<longleftrightarrow> Timestamp r = Some (fst k) \<and> ProcessName r = snd k"
  by (cases k) (auto split: option.splits)

lemma groupby_sum_groups:
  assumes "raw \<noteq> []"
  shows "\<exists>grouped. groupby_sum raw = Inr grouped
      \<and> distinct (map (\<lambda>g. (Timestamp g, ProcessName g)) grouped)
      \<and> set (map (\<lambda>g. (Timestamp g, ProcessName g)) grouped)
          = {(Timestamp r, ProcessName r) | r. r \<in> set raw \<and> Timestamp r \<noteq> None}
      \<and> (\<forall>g\<in>set grouped.
           Value g = sum_list (map Value
             (filter (\<lambda>r. Timestamp r = Timestamp g \<and> ProcessName r = ProcessName g) raw)))"
proof -
  let ?keys = "sort (remdups (List.map_filter group_key raw))"
  let ?g = "map (grouped_row raw) ?keys"
  have keys: "map (\<lambda>g. (Timestamp g, ProcessName g)) ?g = map (\<lambda>k. (Some (fst k), snd k)) ?keys"
    by (simp add: grouped_row_def comp_def)
  have "inj_on (\<lambda>k::int \<times> string. (Some (fst k), snd k)) (set ?keys)"
    by (rule inj_onI) (auto simp: prod_eq_iff)
  then have d: "distinct (map (\<lambda>g. (Timestamp g, ProcessName g)) ?g)"
    unfolding keys by (simp add: distinct_map)
  have "set (map (\<lambda>k. (Some (fst k), snd k)) ?keys)
          = {(Timestamp r, ProcessName r) | r. r \<in> set raw \<and> Timestamp r \<noteq> None}"
  proof (intro set_eqI iffI)
    fix p
    assume "p \<in> set (map (\<lambda>k. (Some (fst k), snd k)) ?keys)"
    then obtain k r where "p = (Some (fst k), snd k)" "r \<in> set raw" "group_key r = Some k"
      by (auto simp: map_filter_set simp del: group_key.simps)
    then show "p \<in> {(Timestamp r, ProcessName r) | r. r \<in> set raw \<and> Timestamp r \<noteq> None}"
      by (auto simp: group_key_Some simp del: group_key.simps intro!: exI [of _ r])
  next
    fix p
    assume "p \<in> {(Timestamp r, ProcessName r) | r. r \<in> set raw \<and> Timestamp r \<noteq> None}"
    then obtain r t where r: "r \<in> set raw" "Timestamp r = Some t" "p = (Timestamp r, ProcessName r)"
      by auto
    then have "group_key r = Some (t, ProcessName r)" by simp
    with r show "p \<in> set (map (\<lambda>k. (Some (fst k), snd k)) ?keys)"
      by (force simp: map_filter_set image_iff simp del: group_key.simps)
  qed
  then have s: "set (map (\<lambda>g. (Timestamp g, ProcessName g)) ?g)
          = {(Timestamp r, ProcessName r) | r. r \<in> set raw \<and> Timestamp r \<noteq> None}"
    by (simp only: keys)
  have v: "\<forall>g\<in>set ?g. Value g = sum_list (map Value
             (filter (\<lambda>r. Timestamp r = Timestamp g \<and> ProcessName r = ProcessName g) raw))"
    by (auto simp: grouped_row_def group_rows_def group_key_Some simp del: group_key.simps)
  from groupby_sum_eq [OF assms] d s v show ?thesis by blast
qed

lemma assign_timestamps_stamp:
  "assign_timestamps rs = Inr ms \<Longrightarrow> \<forall>mr\<in>set ms. to_datetime (cells mr ''Timestamp'') = Inr (stamp mr)"
  by (induction rs arbitrary: ms) (auto split: sum.splits)

lemma merge_frames_stamp:
  assumes "merge_frames dfs = Inr m" and "mr \<in> set (main_rows m)"
  shows "to_datetime (cells mr ''Timestamp'') = Inr (stamp mr)"
proof -
  from assms(1) obtain ms where ms: "assign_timestamps (rows (pd_concat dfs)) = Inr ms"
    and m: "m = \<lparr>main_columns = columns (pd_concat dfs), main_rows = sort_values ms\<rparr>"
    by (auto simp: merge_frames_def Let_def split: if_splits sum.splits)
  from assms(2) have "mr \<in> set ms" by (simp add: m sort_values_def)
  with assign_timestamps_stamp [OF ms] show ?thesis by blast
qed

lemma main_row_origin:
  assumes "merge_frames dfs = Inr m" and "mr \<in> set (main_rows m)"
  shows "\<exists>df\<in>set dfs. \<exists>r\<in>set (rows df). cells mr = padded df r"
proof -
  from assms(2) have "cells mr \<in> cells ` set (main_rows m)" by simp
  then have "cells mr \<in> set (rows (pd_concat dfs))"
    by (simp only: merge_frames_Inr(2) [OF assms(1)])
  then show ?thesis by (auto simp: pd_concat_rows)
qed

lemma main_row_of:
  assumes "merge_frames dfs = Inr m" and "df \<in> set dfs" and "r \<in> set (rows df)"
  shows "\<exists>mr\<in>set (main_rows m). cells mr = padded df r"
proof -
  from assms(2,3) have "padded df r \<in> set (rows (pd_concat dfs))"
    by (auto simp: pd_concat_rows)
  with merge_frames_Inr(2) [OF assms(1)] show ?thesis
    by (metis imageE)
qed

lemma main_columns_merge:
  "merge_frames dfs = Inr m \<Longrightarrow> c \<in> set (main_columns m) \<longleftrightarrow> has_column c dfs"
  by (simp add: merge_frames_Inr(1) pd_concat_columns has_column_def)

lemma slots_coercible:
  assumes m: "merge_frames dfs = Inr m" and ok: "\<forall>df\<in>set dfs. \<not> bad_value p count u df"
  shows "\<forall>slot\<in>set (present_slots m p p count u).
           \<not> isl (py_float (cells (fst slot) (value_column p (snd slot) u)))"
proof
  fix slot
  assume "slot \<in> set (present_slots m p p count u)"
  then obtain mr i where slot: "slot = (mr, i)" and mr: "mr \<in> set (main_rows m)"
    and i: "i \<in> set [1..<count + 1]" and sp: "slot_present m p p u mr i"
    by (auto simp: present_slots_def)
  from main_row_origin [OF m mr] obtain df r where df: "df \<in> set dfs" and r: "r \<in> set (rows df)"
    and c: "cells mr = padded df r"
    by blast
  from sp c have n: "name_column p i \<in> set (columns df)" "value_column p i u \<in> set (columns df)"
    "r (name_column p i) \<noteq> Null" "r (value_column p i u) \<noteq> Null"
    by (auto simp: slot_present_def padded_def split: if_splits)
  show "\<not> isl (py_float (cells (fst slot) (value_column p (snd slot) u)))"
  proof
    assume "isl (py_float (cells (fst slot) (value_column p (snd slot) u)))"
    with slot c n have "isl (py_float (r (value_column p i u)))"
      by (simp add: padded_def)
    with r i n have "bad_value p count u df"
      unfolding bad_value_def by blast
    with ok df show False by blast
  qed
qed

lemma to_datetime_notna: "c \<noteq> Null \<Longrightarrow> to_datetime c = Inr t \<Longrightarrow> t \<noteq> None"
  by (cases c rule: to_datetime.cases) auto

lemma list_all2_witness: "list_all2 P as bs \<Longrightarrow> a \<in> set as \<Longrightarrow> \<exists>b\<in>set bs. P a b"
  by (induction rule: list_all2_induct) auto

lemma long_table_nonempty:
  assumes m: "merge_frames dfs = Inr m" and ok: "\<forall>df\<in>set dfs. \<not> bad_value p count u df"
    and df: "df \<in> set dfs" and d: "dated_slot p count u df"
  shows "\<exists>grouped. long_table m p p count u = Inr grouped \<and> grouped \<noteq> []"
proof -
  from extract_top_data_ok [OF slots_coercible [OF m ok]] obtain raw where
    raw: "extract_top_data m p p count u = Inr raw"
    and all2: "list_all2 (row_of_slot p p u) (present_slots m p p count u) raw"
    by blast
  from d obtain r i where ts: "''Timestamp'' \<in> set (columns df)" and r: "r \<in> set (rows df)"
    and nn: "r ''Timestamp'' \<noteq> Null" and i: "i \<in> set [1..<count + 1]"
    and n: "name_column p i \<in> set (columns df)" "value_column p i u \<in> set (columns df)"
      "r (name_column p i) \<noteq> Null" "r (value_column p i u) \<noteq> Null"
    unfolding dated_slot_def by blast
  from main_row_of [OF m df r] obtain mr where mr: "mr \<in> set (main_rows m)"
    and c: "cells mr = padded df r"
    by blast
  from df n have "name_column p i \<in> set (main_columns m)" "value_column p i u \<in> set (main_columns m)"
    by (auto simp: main_columns_merge [OF m] has_column_def)
  with n c have "slot_present m p p u mr i"
    by (simp add: slot_present_def padded_def)
  with mr i have "(mr, i) \<in> set (present_slots m p p count u)"
    by (auto simp: present_slots_def)
  from list_all2_witness [OF all2 this] obtain row where row: "row \<in> set raw"
    and ros: "row_of_slot p p u (mr, i) row"
    by blast
  from ts nn c have "cells mr ''Timestamp'' \<noteq> Null" by (simp add: padded_def)
  with merge_frames_stamp [OF m mr] have "stamp mr \<noteq> None"
    by (rule to_datetime_notna [rotated])
  with ros have t: "Timestamp row \<noteq> None" by (simp add: row_of_slot_def)
  from row have "raw \<noteq> []" by auto
  from groupby_sum_groups [OF this] obtain grouped where g: "groupby_sum raw = Inr grouped"
    and s: "set (map (\<lambda>g. (Timestamp g, ProcessName g)) grouped)
          = {(Timestamp r, ProcessName r) | r. r \<in> set raw \<and> Timestamp r \<noteq> None}"
    by blast
  from row t have "(Timestamp row, ProcessName row) \<in> set (map (\<lambda>g. (Timestamp g, ProcessName g)) grouped)"
    unfolding s by blast
  then have "grouped \<noteq> []" by auto
  with raw g show ?thesis by (simp add: long_table_def)
qed

lemma column_trace_ok:
  "col \<in> set (main_columns m) \<Longrightarrow> \<exists>t. column_trace m n s col = Inr t"
  by (simp add: column_trace_def get_column_def)

lemma unpack_nonempty:
  "df \<noteq> [] \<Longrightarrow> \<exists>t ns. unpack (filter_top_consumers df value_col K) = Inr (t, ns)"
  by (simp add: filter_top_consumers_nonempty)

lemma build_figure_ok:
  assumes "long_table m ''TopMem'' ''TopMem'' 10 ''MB'' = Inr df_mem" and "df_mem \<noteq> []"
    and "long_table m ''TopHandle'' ''TopHandle'' 5 ''Count'' = Inr df_handle" and "df_handle \<noteq> []"
    and "''TotalMB'' \<in> set (main_columns m)" and "''UsedMB'' \<in> set (main_columns m)"
    and "''NonPagedPoolMB'' \<in> set (main_columns m)" and "''PagedPoolMB'' \<in> set (main_columns m)"
  shows "\<exists>fig. build_figure m = Inr fig"
proof -
  from assms(1) obtain raw_mem where 1: "extract_top_data m ''TopMem'' ''TopMem'' 10 ''MB'' = Inr raw_mem"
    "groupby_sum raw_mem = Inr df_mem"
    by (auto simp: long_table_def and_then_Inr)
  from assms(3) obtain raw_handle where
    2: "extract_top_data m ''TopHandle'' ''TopHandle'' 5 ''Count'' = Inr raw_handle"
    "groupby_sum raw_handle = Inr df_handle"
    by (auto simp: long_table_def and_then_Inr)
  from unpack_nonempty [OF assms(2)] obtain fm cm where
    3: "unpack (filter_top_consumers df_mem Value 5) = Inr (fm, cm)" by blast
  from unpack_nonempty [OF assms(4)] obtain fh ch where
    4: "unpack (filter_top_consumers df_handle Value 3) = Inr (fh, ch)" by blast
  from column_trace_ok [OF assms(5)] obtain t1 where 5: "column_trace m 1 TotalMB ''TotalMB'' = Inr t1"
    by blast
  from column_trace_ok [OF assms(6)] obtain t2 where 6: "column_trace m 1 UsedMB ''UsedMB'' = Inr t2"
    by blast
  from column_trace_ok [OF assms(7)] obtain t3 where
    7: "column_trace m 2 NonPagedPoolMB ''NonPagedPoolMB'' = Inr t3"
    by blast
  from column_trace_ok [OF assms(8)] obtain t4 where
    8: "column_trace m 2 PagedPoolMB ''PagedPoolMB'' = Inr t4"
    by blast
  show ?thesis
    by (simp only: build_figure_def 1 2 3 4 5 6 7 8 and_then.simps prod.case) simp
qed

lemma build_figure_columns:
  assumes "build_figure m = Inr fig"
  shows "{''TotalMB'', ''UsedMB'', ''NonPagedPoolMB'', ''PagedPoolMB''} \<subseteq> set (main_columns m)"
proof -
  from assms obtain t1 t2 t3 t4 where
      "column_trace m 1 TotalMB ''TotalMB'' = Inr t1"
      "column_trace m 1 UsedMB ''UsedMB'' = Inr t2"
      "column_trace m 2 NonPagedPoolMB ''NonPagedPoolMB'' = Inr t3"
      "column_trace m 2 PagedPoolMB ''PagedPoolMB'' = Inr t4"
    unfolding build_figure_def and_then_Inr by (auto simp: and_then_Inr)
  then show ?thesis
    by (auto simp: column_trace_def get_column_def split: if_splits sum.splits)
qed

lemma valid_frame_marker:
  "valid_frame read_csv f = Some df \<Longrightarrow> ''NonPagedPoolMB'' \<in> set (columns df)"
  by (auto simp: valid_frame_def split: sum.splits if_splits)

lemma valid_frames_marker:
  assumes "df \<in> set (valid_frames read_csv log_files)"
  shows "''NonPagedPoolMB'' \<in> set (columns df)"
proof -
  from assms obtain f where "valid_frame read_csv f = Some df"
    by (auto simp: valid_frames_def map_filter_set)
  then show ?thesis by (rule valid_frame_marker)
qed

section \<open>The properties\<close>

subsection \<open>C1: an empty long table\<close>

text \<open>
  C1 says that a run in which no slot holds a name and a value goes through: the selector
  returns an empty table and an empty list of names, rows 3 and 4 of the chart get no
  series, and the report is written. The program does not do that. On an empty table
  \<^verbatim>\<open>filter_top_consumers\<close> returns the table alone, which the caller cannot unpack into
  a table and a list of names; and a run in which no slot is filled does not get that far,
  because grouping the column-less \<^verbatim>\<open>pd.DataFrame([])\<close> raises \<^verbatim>\<open>KeyError\<close>. With the log
  \<open>quiet_log\<close>, which has the counters and no slot, the run ends with
  \<^verbatim>\<open>KeyError: 'Timestamp'\<close>; with the log \<open>undated_log\<close>, whose slots are filled on a line
  without timestamp, the grouped tables handed to the selector are empty and the run ends
  with \<^verbatim>\<open>ValueError\<close>. In both runs nothing is written.
\<close>

theorem empty_long_table_ends_the_run:
  "filter_top_consumers [] Value 5 = Table_only []
   \<and> unpack (filter_top_consumers [] Value 5) = Inl ValueError
   \<and> generate_report [''quiet_log.csv''] read_logs
       = ([FoundLogFiles [''quiet_log.csv'']], Raised (KeyError ''Timestamp''))
   \<and> generate_report [''undated_log.csv''] read_logs
       = ([FoundLogFiles [''undated_log.csv'']], Raised ValueError)"
proof -
  have "filter_top_consumers [] Value 5 = Table_only []"
    by (simp add: filter_top_consumers_def)
  moreover have "generate_report [''quiet_log.csv''] read_logs
       = ([FoundLogFiles [''quiet_log.csv'']], Raised (KeyError ''Timestamp''))"
    by code_simp
  moreover have "generate_report [''undated_log.csv''] read_logs
       = ([FoundLogFiles [''undated_log.csv'']], Raised ValueError)"
    by code_simp
  ultimately show ?thesis by simp
qed

subsection \<open>C2: what ends a run\<close>

text \<open>
  C2 says that once a file has passed the marker-column check no input makes the run
  crash, naming a non-numeric slot value and an unparseable timestamp. It fails: the
  program catches exceptions around \<^verbatim>\<open>pd.read_csv\<close> only. In the log \<open>garbled_log\<close>, which
  passes the check, the memory value of \<^verbatim>\<open>chrome.exe\<close> is the text \<^verbatim>\<open>900 MB\<close>;
  \<^verbatim>\<open>float\<close> raises \<^verbatim>\<open>ValueError\<close> on it and the run ends there.
\<close>

theorem non_numeric_value_ends_the_run:
  "valid_file read_logs ''garbled_log.csv''
   \<and> generate_report [''garbled_log.csv''] read_logs
       = ([FoundLogFiles [''garbled_log.csv'']], Raised ValueError)"
proof -
  have "valid_file read_logs ''garbled_log.csv''"
    by code_simp
  moreover have "generate_report [''garbled_log.csv''] read_logs
       = ([FoundLogFiles [''garbled_log.csv'']], Raised ValueError)"
    by code_simp
  ultimately show ?thesis by simp
qed

text \<open>
  C2 as amended. For every input set:
  \<^item> the run returns early, writing nothing and raising nothing, exactly when no file
    matches or no file survives validation;
  \<^item> a file on which \<^verbatim>\<open>pd.read_csv\<close> raises is reported, and the run goes on;
  \<^item> once a file has survived validation, errors are not handled: the run ends with an
    exception, and writes nothing, when the surviving files have no \<^verbatim>\<open>Timestamp\<close>,
    \<^verbatim>\<open>TotalMB\<close>, \<^verbatim>\<open>UsedMB\<close> or \<^verbatim>\<open>PagedPoolMB\<close> column, when one of them has a timestamp
    \<^verbatim>\<open>pd.to_datetime\<close> rejects, or a memory or handle slot whose name and value are present
    and non-null and whose value \<^verbatim>\<open>float\<close> rejects;
  \<^item> when none of this is the case, and each of the two families has a slot with name and
    value on a line that has a timestamp, the report is written.
  These are the only ways a run ends without output, but for the runs in which a family has
  no such slot, which C1 is about.
\<close>

theorem run_returns_raises_or_writes:
  "(snd (generate_report log_files read_csv) = Returned \<longleftrightarrow>
      log_files = [] \<or> (\<forall>f\<in>set log_files. \<not> valid_file read_csv f))
   \<and> (\<forall>f\<in>set log_files. \<forall>e. read_csv f = Inl e \<longrightarrow>
         ErrorReading f e \<in> set (fst (generate_report log_files read_csv)))
   \<and> (valid_frames read_csv log_files \<noteq> []
        \<and> (\<not> has_column ''Timestamp'' (valid_frames read_csv log_files)
           \<or> \<not> has_column ''TotalMB'' (valid_frames read_csv log_files)
           \<or> \<not> has_column ''UsedMB'' (valid_frames read_csv log_files)
           \<or> \<not> has_column ''PagedPoolMB'' (valid_frames read_csv log_files)
           \<or> (\<exists>df\<in>set (valid_frames read_csv log_files).
                 bad_timestamp df \<or> bad_value ''TopMem'' 10 ''MB'' df
               \<or> bad_value ''TopHandle'' 5 ''Count'' df))
       \<longrightarrow> (\<exists>e. snd (generate_report log_files read_csv) = Raised e))
   \<and> (has_column ''Timestamp'' (valid_frames read_csv log_files)
        \<and> has_column ''TotalMB'' (valid_frames read_csv log_files)
        \<and> has_column ''UsedMB'' (valid_frames read_csv log_files)
        \<and> has_column ''PagedPoolMB'' (valid_frames read_csv log_files)
        \<and> (\<forall>df\<in>set (valid_frames read_csv log_files).
              \<not> bad_timestamp df \<and> \<not> bad_value ''TopMem'' 10 ''MB'' df
            \<and> \<not> bad_value ''TopHandle'' 5 ''Count'' df)
        \<and> (\<exists>df\<in>set (valid_frames read_csv log_files). dated_slot ''TopMem'' 10 ''MB'' df)
        \<and> (\<exists>df\<in>set (valid_frames read_csv log_files). dated_slot ''TopHandle'' 5 ''Count'' df)
       \<longrightarrow> (\<exists>fig. snd (generate_report log_files read_csv) = Written fig))"
proof (intro conjI)
  show "snd (generate_report log_files read_csv) = Returned \<longleftrightarrow>
      log_files = [] \<or> (\<forall>f\<in>set log_files. \<not> valid_file read_csv f)"
    by (rule generate_report_Returned)
next
  show "\<forall>f\<in>set log_files. \<forall>e. read_csv f = Inl e \<longrightarrow>
         ErrorReading f e \<in> set (fst (generate_report log_files read_csv))"
  proof (intro ballI allI impI)
    fix f e
    assume f: "f \<in> set log_files" and e: "read_csv f = Inl e"
    then have "ErrorReading f e \<in> set (fst (load_files read_csv (sort log_files)))"
      by (simp add: load_files_error)
    moreover from f have "log_files \<noteq> []" by auto
    ultimately show "ErrorReading f e \<in> set (fst (generate_report log_files read_csv))"
      using fst_generate_report [of log_files read_csv] by auto
  qed
next
  let ?dfs = "valid_frames read_csv log_files"
  show "?dfs \<noteq> []
        \<and> (\<not> has_column ''Timestamp'' ?dfs \<or> \<not> has_column ''TotalMB'' ?dfs
           \<or> \<not> has_column ''UsedMB'' ?dfs \<or> \<not> has_column ''PagedPoolMB'' ?dfs
           \<or> (\<exists>df\<in>set ?dfs. bad_timestamp df \<or> bad_value ''TopMem'' 10 ''MB'' df
               \<or> bad_value ''TopHandle'' 5 ''Count'' df))
       \<longrightarrow> (\<exists>e. snd (generate_report log_files read_csv) = Raised e)"
  proof
    assume h: "?dfs \<noteq> []
        \<and> (\<not> has_column ''Timestamp'' ?dfs \<or> \<not> has_column ''TotalMB'' ?dfs
           \<or> \<not> has_column ''UsedMB'' ?dfs \<or> \<not> has_column ''PagedPoolMB'' ?dfs
           \<or> (\<exists>df\<in>set ?dfs. bad_timestamp df \<or> bad_value ''TopMem'' 10 ''MB'' df
               \<or> bad_value ''TopHandle'' 5 ''Count'' df))"
    have "isl (and_then (merge_frames ?dfs) build_figure)"
    proof (cases "merge_frames ?dfs")
      case (Inl e)
      then show ?thesis by simp
    next
      case (Inr m)
      have "isl (build_figure m)"
      proof (rule ccontr)
        assume "\<not> isl (build_figure m)"
        then obtain fig where fig: "build_figure m = Inr fig"
          by (cases "build_figure m") auto
        from build_figure_columns [OF fig] have
          "has_column ''TotalMB'' ?dfs" "has_column ''UsedMB'' ?dfs" "has_column ''PagedPoolMB'' ?dfs"
          by (simp_all add: main_columns_merge [OF Inr])
        moreover from Inr have "has_column ''Timestamp'' ?dfs"
          by (auto simp: merge_frames_def Let_def pd_concat_columns has_column_def
                split: if_splits sum.splits)
        ultimately obtain df where df: "df \<in> set ?dfs"
          and bad: "bad_timestamp df \<or> bad_value ''TopMem'' 10 ''MB'' df
                      \<or> bad_value ''TopHandle'' 5 ''Count'' df"
          using h by blast
        from bad_timestamp_raises [OF df] Inr have "\<not> bad_timestamp df" by auto
        with bad consider "bad_value ''TopMem'' 10 ''MB'' df"
          | "bad_value ''TopHandle'' 5 ''Count'' df"
          by blast
        then have "isl (build_figure m)"
        proof cases
          case 1
          from bad_value_raises [OF df 1 Inr] show ?thesis
            by (simp add: build_figure_mem_fail)
        next
          case 2
          from bad_value_raises [OF df 2 Inr] show ?thesis
            by (rule build_figure_handle_fail)
        qed
        with fig show False by simp
      qed
      with Inr show ?thesis by simp
    qed
    then obtain e where e: "and_then (merge_frames ?dfs) build_figure = Inl e"
      by (cases "and_then (merge_frames ?dfs) build_figure") auto
    from h have ne: "log_files \<noteq> []"
      by (auto simp: valid_frames_def)
    from generate_report_run [OF ne] h e
    show "\<exists>e. snd (generate_report log_files read_csv) = Raised e"
      by (simp add: valid_frames_def)
  qed
next
  let ?dfs = "valid_frames read_csv log_files"
  show "has_column ''Timestamp'' ?dfs \<and> has_column ''TotalMB'' ?dfs
        \<and> has_column ''UsedMB'' ?dfs \<and> has_column ''PagedPoolMB'' ?dfs
        \<and> (\<forall>df\<in>set ?dfs. \<not> bad_timestamp df \<and> \<not> bad_value ''TopMem'' 10 ''MB'' df
            \<and> \<not> bad_value ''TopHandle'' 5 ''Count'' df)
        \<and> (\<exists>df\<in>set ?dfs. dated_slot ''TopMem'' 10 ''MB'' df)
        \<and> (\<exists>df\<in>set ?dfs. dated_slot ''TopHandle'' 5 ''Count'' df)
       \<longrightarrow> (\<exists>fig. snd (generate_report log_files read_csv) = Written fig)"
  proof
    assume h: "has_column ''Timestamp'' ?dfs \<and> has_column ''TotalMB'' ?dfs
        \<and> has_column ''UsedMB'' ?dfs \<and> has_column ''PagedPoolMB'' ?dfs
        \<and> (\<forall>df\<in>set ?dfs. \<not> bad_timestamp df \<and> \<not> bad_value ''TopMem'' 10 ''MB'' df
            \<and> \<not> bad_value ''TopHandle'' 5 ''Count'' df)
        \<and> (\<exists>df\<in>set ?dfs. dated_slot ''TopMem'' 10 ''MB'' df)
        \<and> (\<exists>df\<in>set ?dfs. dated_slot ''TopHandle'' 5 ''Count'' df)"
    then obtain dm dh where dm: "dm \<in> set ?dfs" "dated_slot ''TopMem'' 10 ''MB'' dm"
      and dh: "dh \<in> set ?dfs" "dated_slot ''TopHandle'' 5 ''Count'' dh"
      by blast
    from h have ts: "\<exists>df\<in>set ?dfs. ''Timestamp'' \<in> set (columns df)"
      by (simp add: has_column_def)
    from h have "\<forall>df\<in>set ?dfs. \<not> bad_timestamp df" by blast
    with ts have "\<not> isl (merge_frames ?dfs)"
      by (rule merge_frames_succeeds)
    then obtain m where m: "merge_frames ?dfs = Inr m"
      by (cases "merge_frames ?dfs") auto
    from h have okm: "\<forall>df\<in>set ?dfs. \<not> bad_value ''TopMem'' 10 ''MB'' df"
      and okh: "\<forall>df\<in>set ?dfs. \<not> bad_value ''TopHandle'' 5 ''Count'' df"
      by blast+
    from long_table_nonempty [OF m okm dm] obtain df_mem where
      lm: "long_table m ''TopMem'' ''TopMem'' 10 ''MB'' = Inr df_mem" "df_mem \<noteq> []"
      by blast
    from long_table_nonempty [OF m okh dh] obtain df_handle where
      lh: "long_table m ''TopHandle'' ''TopHandle'' 5 ''Count'' = Inr df_handle" "df_handle \<noteq> []"
      by blast
    from dm(1) have "has_column ''NonPagedPoolMB'' ?dfs"
      unfolding has_column_def by (blast dest: valid_frames_marker)
    with h have cols: "''TotalMB'' \<in> set (main_columns m)" "''UsedMB'' \<in> set (main_columns m)"
      "''NonPagedPoolMB'' \<in> set (main_columns m)" "''PagedPoolMB'' \<in> set (main_columns m)"
      by (simp_all add: main_columns_merge [OF m])
    from build_figure_ok [OF lm lh cols] obtain fig where fig: "build_figure m = Inr fig"
      by blast
    from dm(1) have ne: "log_files \<noteq> []" "?dfs \<noteq> []"
      by (auto simp: valid_frames_def)
    from generate_report_run [OF ne(1)] ne(2) m fig
    show "\<exists>fig. snd (generate_report log_files read_csv) = Written fig"
      by (simp add: valid_frames_def)
  qed
qed

theorem run_returns_raises_or_writes_witness:
  "read_logs ''missing_log.csv'' = Inl (ReadError ''No such file or directory'')
   \<and> valid_frames read_logs [''missing_log.csv'', ''garbled_log.csv''] = [garbled_log]
   \<and> bad_value ''TopMem'' 10 ''MB'' garbled_log
   \<and> generate_report [''missing_log.csv'', ''garbled_log.csv''] read_logs
       = ([FoundLogFiles [''garbled_log.csv'', ''missing_log.csv''],
           ErrorReading ''missing_log.csv'' (ReadError ''No such file or directory'')],
          Raised ValueError)
   \<and> valid_frames read_logs [''busy_log.csv''] = [busy_log]
   \<and> has_column ''Timestamp'' [busy_log] \<and> has_column ''TotalMB'' [busy_log]
   \<and> has_column ''UsedMB'' [busy_log] \<and> has_column ''PagedPoolMB'' [busy_log]
   \<and> \<not> bad_timestamp busy_log \<and> \<not> bad_value ''TopMem'' 10 ''MB'' busy_log
   \<and> \<not> bad_value ''TopHandle'' 5 ''Count'' busy_log
   \<and> dated_slot ''TopMem'' 10 ''MB'' busy_log \<and> dated_slot ''TopHandle'' 5 ''Count'' busy_log
   \<and> snd (generate_report [''busy_log.csv''] read_logs) = Written busy_figure"
proof -
  have 1: "read_logs ''missing_log.csv'' = Inl (ReadError ''No such file or directory'')"
    by (simp add: read_logs_def)
  have "sort [''missing_log.csv'', ''garbled_log.csv''] = [''garbled_log.csv'', ''missing_log.csv'']"
    by code_simp
  then have 2: "valid_frames read_logs [''missing_log.csv'', ''garbled_log.csv''] = [garbled_log]"
    by (simp add: valid_frames_def valid_frame_def read_logs_def garbled_log_def csv_frame_def
          List.map_filter_simps)
  have 3: "bad_value ''TopMem'' 10 ''MB'' garbled_log"
    by code_simp
  have 4: "generate_report [''missing_log.csv'', ''garbled_log.csv''] read_logs
       = ([FoundLogFiles [''garbled_log.csv'', ''missing_log.csv''],
           ErrorReading ''missing_log.csv'' (ReadError ''No such file or directory'')],
          Raised ValueError)"
    by code_simp
  have 5: "valid_frames read_logs [''busy_log.csv''] = [busy_log]"
    by (simp add: valid_frames_def valid_frame_def read_logs_def busy_log_def csv_frame_def
          List.map_filter_simps)
  have 6: "has_column ''Timestamp'' [busy_log] \<and> has_column ''TotalMB'' [busy_log]
      \<and> has_column ''UsedMB'' [busy_log] \<and> has_column ''PagedPoolMB'' [busy_log]"
    by code_simp
  have 7: "\<not> bad_timestamp busy_log \<and> \<not> bad_value ''TopMem'' 10 ''MB'' busy_log
      \<and> \<not> bad_value ''TopHandle'' 5 ''Count'' busy_log"
    by code_simp
  have 8: "dated_slot ''TopMem'' 10 ''MB'' busy_log \<and> dated_slot ''TopHandle'' 5 ''Count'' busy_log"
    by code_simp
  have 9: "snd (generate_report [''busy_log.csv''] read_logs) = Written busy_figure"
    by code_simp
  from run_returns_raises_or_writes [of "[''missing_log.csv'', ''garbled_log.csv'']" read_logs] 2 3
  have "\<exists>e. snd (generate_report [''missing_log.csv'', ''garbled_log.csv''] read_logs) = Raised e"
    by simp
  moreover
  from run_returns_raises_or_writes [of "[''busy_log.csv'']" read_logs] 5 6 7 8
  have "\<exists>fig. snd (generate_report [''busy_log.csv''] read_logs) = Written fig"
    by simp
  ultimately show ?thesis
    using 1 2 3 4 5 6 7 8 9 by simp
qed

subsection \<open>C3: the reshaper\<close>

text \<open>
  C3 says that for every merged table the reshaper emits one long row per slot whose name
  and value are present and non-null, and then sums the values by timestamp and process
  name. It fails on three merged tables. In that of \<open>garbled_log\<close> slot 1 is present and
  no row is emitted: \<^verbatim>\<open>float\<close> raises on the value \<^verbatim>\<open>900 MB\<close>. In that of \<open>undated_log\<close> slot
  1 is present and its row is emitted, but the line has no timestamp and grouping drops
  the row: the long table is empty. In that of \<open>quiet_log\<close> no slot is present, and
  grouping the table without rows raises.
\<close>

theorem reshaper_stops_or_drops:
  "merge_frames [garbled_log] = Inr (merged_table [garbled_log])
   \<and> map snd (present_slots (merged_table [garbled_log]) ''TopMem'' ''TopMem'' 10 ''MB'') = [1]
   \<and> extract_top_data (merged_table [garbled_log]) ''TopMem'' ''TopMem'' 10 ''MB'' = Inl ValueError
   \<and> merge_frames [undated_log] = Inr (merged_table [undated_log])
   \<and> map snd (present_slots (merged_table [undated_log]) ''TopMem'' ''TopMem'' 10 ''MB'') = [1]
   \<and> extract_top_data (merged_table [undated_log]) ''TopMem'' ''TopMem'' 10 ''MB''
       = Inr [\<lparr>Timestamp = None, ProcessName = ''chrome.exe'', Value = 900\<rparr>]
   \<and> long_table (merged_table [undated_log]) ''TopMem'' ''TopMem'' 10 ''MB'' = Inr []
   \<and> merge_frames [quiet_log] = Inr (merged_table [quiet_log])
   \<and> present_slots (merged_table [quiet_log]) ''TopMem'' ''TopMem'' 10 ''MB'' = []
   \<and> long_table (merged_table [quiet_log]) ''TopMem'' ''TopMem'' 10 ''MB''
       = Inl (KeyError ''Timestamp'')"
proof -
  have "\<not> isl (merge_frames [garbled_log])" "\<not> isl (merge_frames [undated_log])"
    "\<not> isl (merge_frames [quiet_log])"
    by code_simp+
  then have m: "merge_frames [garbled_log] = Inr (merged_table [garbled_log])"
    "merge_frames [undated_log] = Inr (merged_table [undated_log])"
    "merge_frames [quiet_log] = Inr (merged_table [quiet_log])"
    by (simp_all add: merged_table_def)
  have g: "map snd (present_slots (merged_table [garbled_log]) ''TopMem'' ''TopMem'' 10 ''MB'') = [1]"
    "extract_top_data (merged_table [garbled_log]) ''TopMem'' ''TopMem'' 10 ''MB'' = Inl ValueError"
    by code_simp+
  have u: "map snd (present_slots (merged_table [undated_log]) ''TopMem'' ''TopMem'' 10 ''MB'') = [1]"
    "extract_top_data (merged_table [undated_log]) ''TopMem'' ''TopMem'' 10 ''MB''
       = Inr [\<lparr>Timestamp = None, ProcessName = ''chrome.exe'', Value = 900\<rparr>]"
    "long_table (merged_table [undated_log]) ''TopMem'' ''TopMem'' 10 ''MB'' = Inr []"
    by code_simp+
  have q: "map snd (present_slots (merged_table [quiet_log]) ''TopMem'' ''TopMem'' 10 ''MB'') = []"
    "long_table (merged_table [quiet_log]) ''TopMem'' ''TopMem'' 10 ''MB''
       = Inl (KeyError ''Timestamp'')"
    by code_simp+
  from q(1) have "present_slots (merged_table [quiet_log]) ''TopMem'' ''TopMem'' 10 ''MB'' = []"
    by simp
  with m g u q(2) show ?thesis by simp
qed

text \<open>
  C3 as amended. For every merged table, naming convention and slot count such that
  \<^verbatim>\<open>float\<close> accepts the value of every slot whose name and value are present and non-null,
  \<^verbatim>\<open>extract_top_data\<close> emits exactly one long row per table row and slot index with both
  present and non-null, in the order of the rows and slots: the row's timestamp, the name
  as text, the value as a floating-point number. When at least one row is emitted,
  grouping keeps the rows that have a timestamp and gives exactly one row per distinct
  pair of timestamp and process name among them, whose value is the sum of the values of
  the emitted rows with that timestamp and that name. In particular a process in slots 1
  and 2 of one line with 10 and 15 gives one row, of value 25, and its value a minute later
  stays a row of its own.
\<close>

theorem reshaper_rows_and_sums:
  assumes "\<forall>slot\<in>set (present_slots df_main prefix_name prefix_val count val_col_name).
             \<not> isl (py_float (cells (fst slot) (value_column prefix_val (snd slot) val_col_name)))"
  shows "\<exists>raw. extract_top_data df_main prefix_name prefix_val count val_col_name = Inr raw
     \<and> list_all2 (row_of_slot prefix_name prefix_val val_col_name)
         (present_slots df_main prefix_name prefix_val count val_col_name) raw
     \<and> (raw \<noteq> [] \<longrightarrow>
          (\<exists>grouped. long_table df_main prefix_name prefix_val count val_col_name = Inr grouped
             \<and> distinct (map (\<lambda>g. (Timestamp g, ProcessName g)) grouped)
             \<and> set (map (\<lambda>g. (Timestamp g, ProcessName g)) grouped)
                 = {(Timestamp r, ProcessName r) | r. r \<in> set raw \<and> Timestamp r \<noteq> None}
             \<and> (\<forall>g\<in>set grouped.
                  Value g = sum_list (map Value
                    (filter (\<lambda>r. Timestamp r = Timestamp g \<and> ProcessName r = ProcessName g)
                            raw)))))"
proof -
  from extract_top_data_ok [OF assms] obtain raw where
    raw: "extract_top_data df_main prefix_name prefix_val count val_col_name = Inr raw"
      "list_all2 (row_of_slot prefix_name prefix_val val_col_name)
         (present_slots df_main prefix_name prefix_val count val_col_name) raw"
    by blast
  have "raw \<noteq> [] \<longrightarrow>
          (\<exists>grouped. long_table df_main prefix_name prefix_val count val_col_name = Inr grouped
             \<and> distinct (map (\<lambda>g. (Timestamp g, ProcessName g)) grouped)
             \<and> set (map (\<lambda>g. (Timestamp g, ProcessName g)) grouped)
                 = {(Timestamp r, ProcessName r) | r. r \<in> set raw \<and> Timestamp r \<noteq> None}
             \<and> (\<forall>g\<in>set grouped.
                  Value g = sum_list (map Value
                    (filter (\<lambda>r. Timestamp r = Timestamp g \<and> ProcessName r = ProcessName g)
                            raw))))"
  proof
    assume "raw \<noteq> []"
    from groupby_sum_groups [OF this] raw(1) show "\<exists>grouped.
        long_table df_main prefix_name prefix_val count val_col_name = Inr grouped
        \<and> distinct (map (\<lambda>g. (Timestamp g, ProcessName g)) grouped)
        \<and> set (map (\<lambda>g. (Timestamp g, ProcessName g)) grouped)
            = {(Timestamp r, ProcessName r) | r. r \<in> set raw \<and> Timestamp r \<noteq> None}
        \<and> (\<forall>g\<in>set grouped.
             Value g = sum_list (map Value
               (filter (\<lambda>r. Timestamp r = Timestamp g \<and> ProcessName r = ProcessName g) raw)))"
      by (simp add: long_table_def)
  qed
  with raw show ?thesis by blast
qed

theorem reshaper_rows_and_sums_witness:
  "list_all (\<lambda>slot. \<not> isl (py_float (cells (fst slot) (value_column ''TopMem'' (snd slot) ''MB''))))
     (present_slots twice_listed ''TopMem'' ''TopMem'' 10 ''MB'')
   \<and> map snd (present_slots twice_listed ''TopMem'' ''TopMem'' 10 ''MB'') = [1, 2, 3, 1, 2]
   \<and> extract_top_data twice_listed ''TopMem'' ''TopMem'' 10 ''MB''
       = Inr [\<lparr>Timestamp = Some 0, ProcessName = ''chrome.exe'', Value = 10\<rparr>,
              \<lparr>Timestamp = Some 0, ProcessName = ''chrome.exe'', Value = 15\<rparr>,
              \<lparr>Timestamp = Some 0, ProcessName = ''lsm.exe'', Value = 7\<rparr>,
              \<lparr>Timestamp = Some 60, ProcessName = ''chrome.exe'', Value = 40\<rparr>,
              \<lparr>Timestamp = Some 60, ProcessName = ''lsm.exe'', Value = 8\<rparr>]
   \<and> long_table twice_listed ''TopMem'' ''TopMem'' 10 ''MB''
       = Inr [\<lparr>Timestamp = Some 0, ProcessName = ''chrome.exe'', Value = 25\<rparr>,
              \<lparr>Timestamp = Some 0, ProcessName = ''lsm.exe'', Value = 7\<rparr>,
              \<lparr>Timestamp = Some 60, ProcessName = ''chrome.exe'', Value = 40\<rparr>,
              \<lparr>Timestamp = Some 60, ProcessName = ''lsm.exe'', Value = 8\<rparr>]"
proof -
  have h: "list_all (\<lambda>slot. \<not> isl (py_float (cells (fst slot) (value_column ''TopMem'' (snd slot) ''MB''))))
     (present_slots twice_listed ''TopMem'' ''TopMem'' 10 ''MB'')"
    by code_simp
  then have "\<forall>slot\<in>set (present_slots twice_listed ''TopMem'' ''TopMem'' 10 ''MB'').
      \<not> isl (py_float (cells (fst slot) (value_column ''TopMem'' (snd slot) ''MB'')))"
    by (simp add: list_all_iff)
  from reshaper_rows_and_sums [OF this] obtain raw where
    raw: "extract_top_data twice_listed ''TopMem'' ''TopMem'' 10 ''MB'' = Inr raw"
    by blast
  have s: "map snd (present_slots twice_listed ''TopMem'' ''TopMem'' 10 ''MB'') = [1, 2, 3, 1, 2]"
    by code_simp
  have e: "extract_top_data twice_listed ''TopMem'' ''TopMem'' 10 ''MB''
       = Inr [\<lparr>Timestamp = Some 0, ProcessName = ''chrome.exe'', Value = 10\<rparr>,
              \<lparr>Timestamp = Some 0, ProcessName = ''chrome.exe'', Value = 15\<rparr>,
              \<lparr>Timestamp = Some 0, ProcessName = ''lsm.exe'', Value = 7\<rparr>,
              \<lparr>Timestamp = Some 60, ProcessName = ''chrome.exe'', Value = 40\<rparr>,
              \<lparr>Timestamp = Some 60, ProcessName = ''lsm.exe'', Value = 8\<rparr>]"
    by code_simp
  have g: "long_table twice_listed ''TopMem'' ''TopMem'' 10 ''MB''
       = Inr [\<lparr>Timestamp = Some 0, ProcessName = ''chrome.exe'', Value = 25\<rparr>,
              \<lparr>Timestamp = Some 0, ProcessName = ''lsm.exe'', Value = 7\<rparr>,
              \<lparr>Timestamp = Some 60, ProcessName = ''chrome.exe'', Value = 40\<rparr>,
              \<lparr>Timestamp = Some 60, ProcessName = ''lsm.exe'', Value = 8\<rparr>]"
    by code_simp
  from raw h s e g show ?thesis by simp
qed

subsection \<open>C4 to C6: the top-K selector\<close>

text \<open>
  C4. For every non-empty long table and every K, \<^verbatim>\<open>filter_top_consumers\<close> ranks the
  distinct process names by their peak, the largest value observed for the name over all
  timestamps, in descending order; it selects the first K names of the ranking, and the
  table it returns holds exactly the input rows whose name is selected.
\<close>

theorem top_consumers_by_peak:
  assumes "df \<noteq> []"
  shows "\<exists>ranking. distinct ranking \<and> set ranking = process_names df
           \<and> sorted_wrt (\<lambda>a b. peak df b \<le> peak df a) ranking
           \<and> filter_top_consumers df Value K =
               Table_and_names (filter (\<lambda>r. ProcessName r \<in> set (take K ranking)) df)
                 (take K ranking)"
  using filter_top_consumers_nonempty [OF assms, of Value K]
    distinct_max_usage_names [of df Value] set_max_usage_names [of df Value]
    sorted_max_usage [of df]
  by blast

theorem top_consumers_by_peak_witness:
  "sample_long \<noteq> []
   \<and> peak sample_long ''a'' = 30 \<and> peak sample_long ''b'' = 20 \<and> peak sample_long ''c'' = 25
   \<and> filter_top_consumers sample_long Value 2 =
       Table_and_names
         [\<lparr>Timestamp = Some 1, ProcessName = ''a'', Value = 10\<rparr>,
          \<lparr>Timestamp = Some 1, ProcessName = ''c'', Value = 25\<rparr>,
          \<lparr>Timestamp = Some 2, ProcessName = ''a'', Value = 30\<rparr>,
          \<lparr>Timestamp = Some 2, ProcessName = ''c'', Value = 24\<rparr>]
         [''a'', ''c'']"
proof -
  have h: "sample_long \<noteq> []"
    by (simp add: sample_long_def)
  have p: "peak sample_long ''a'' = 30 \<and> peak sample_long ''b'' = 20 \<and> peak sample_long ''c'' = 25"
    by code_simp
  have e: "filter_top_consumers sample_long Value 2 =
       Table_and_names
         [\<lparr>Timestamp = Some 1, ProcessName = ''a'', Value = 10\<rparr>,
          \<lparr>Timestamp = Some 1, ProcessName = ''c'', Value = 25\<rparr>,
          \<lparr>Timestamp = Some 2, ProcessName = ''a'', Value = 30\<rparr>,
          \<lparr>Timestamp = Some 2, ProcessName = ''c'', Value = 24\<rparr>]
         [''a'', ''c'']"
    by code_simp
  from top_consumers_by_peak [OF h, of 2] h p e show ?thesis by simp
qed

text \<open>
  C5. Selection is idempotent: for every long table and every K, selecting again from
  the table a selection returned, with the same K, returns the same table and selects the
  same set of names. (When the table is empty the program returns the table alone, and no
  name is selected.)
\<close>

theorem top_consumers_idempotent:
  "table_of (filter_top_consumers (table_of (filter_top_consumers df Value K)) Value K)
     = table_of (filter_top_consumers df Value K)
   \<and> set (names_of (filter_top_consumers (table_of (filter_top_consumers df Value K)) Value K))
     = set (names_of (filter_top_consumers df Value K))"
proof -
  let ?s1 = "filter_top_consumers df Value K"
  let ?F = "table_of ?s1"
  let ?s2 = "filter_top_consumers ?F Value K"
  have pn: "process_names ?F = set (names_of ?s1)"
    by (subst table_of_eq) (rule process_names_filter [OF names_of_subset])
  have "card (set (names_of ?s1)) \<le> length (names_of ?s1)"
    by (rule card_length)
  also have "length (names_of ?s1) \<le> K"
    by (simp add: length_names_of)
  finally have le: "card (process_names ?F) \<le> K"
    by (simp add: pn)
  have names: "set (names_of ?s2) = set (names_of ?s1)"
  proof (cases "?F = []")
    case True
    then have "process_names ?F = {}" by (simp add: process_names_def)
    with pn True show ?thesis by (simp add: filter_top_consumers_def)
  next
    case False
    then have "names_of ?s2 = map fst (max_usage ?F Value)"
      by (simp add: filter_top_consumers_nonempty take_all_names [OF le])
    then show ?thesis
      by (simp add: set_max_usage_names pn del: set_map)
  qed
  have "table_of ?s2 = filter (\<lambda>r. ProcessName r \<in> process_names ?F) ?F"
    by (subst table_of_eq) (simp add: names pn)
  also have "\<dots> = ?F"
    by (simp add: process_names_def)
  finally show ?thesis using names by simp
qed

theorem top_consumers_idempotent_witness:
  "table_of (filter_top_consumers (table_of (filter_top_consumers sample_long Value 2)) Value 2)
     = [\<lparr>Timestamp = Some 1, ProcessName = ''a'', Value = 10\<rparr>,
        \<lparr>Timestamp = Some 1, ProcessName = ''c'', Value = 25\<rparr>,
        \<lparr>Timestamp = Some 2, ProcessName = ''a'', Value = 30\<rparr>,
        \<lparr>Timestamp = Some 2, ProcessName = ''c'', Value = 24\<rparr>]
   \<and> set (names_of (filter_top_consumers (table_of (filter_top_consumers sample_long Value 2)) Value 2))
     = {''a'', ''c''}"
proof -
  have e: "filter_top_consumers sample_long Value 2 =
       Table_and_names
         [\<lparr>Timestamp = Some 1, ProcessName = ''a'', Value = 10\<rparr>,
          \<lparr>Timestamp = Some 1, ProcessName = ''c'', Value = 25\<rparr>,
          \<lparr>Timestamp = Some 2, ProcessName = ''a'', Value = 30\<rparr>,
          \<lparr>Timestamp = Some 2, ProcessName = ''c'', Value = 24\<rparr>]
         [''a'', ''c'']"
    by code_simp
  have t: "table_of (filter_top_consumers sample_long Value 2) =
         [\<lparr>Timestamp = Some 1, ProcessName = ''a'', Value = 10\<rparr>,
          \<lparr>Timestamp = Some 1, ProcessName = ''c'', Value = 25\<rparr>,
          \<lparr>Timestamp = Some 2, ProcessName = ''a'', Value = 30\<rparr>,
          \<lparr>Timestamp = Some 2, ProcessName = ''c'', Value = 24\<rparr>]"
    and n: "set (names_of (filter_top_consumers sample_long Value 2)) = {''a'', ''c''}"
    by (simp_all only: e table_of.simps names_of.simps list.set)
  from top_consumers_idempotent [of sample_long 2] show ?thesis
    by (simp only: t n)
qed

text \<open>
  C6. For every long table and every K greater than the number of its distinct process
  names, the selector selects all the distinct names, each once, and the table it returns
  is the input table; \<^verbatim>\<open>filter_top_consumers\<close> has no raising path.
\<close>

theorem top_n_beyond_the_names:
  assumes "card (process_names df) < K"
  shows "table_of (filter_top_consumers df Value K) = df
       \<and> set (names_of (filter_top_consumers df Value K)) = process_names df
       \<and> distinct (names_of (filter_top_consumers df Value K))
       \<and> (df \<noteq> [] \<longrightarrow> (\<exists>names. filter_top_consumers df Value K = Table_and_names df names))"
proof (cases "df = []")
  case True
  then show ?thesis by (simp add: filter_top_consumers_def process_names_def)
next
  case False
  from assms have t: "take K (map fst (max_usage df Value)) = map fst (max_usage df Value)"
    by (simp add: take_all_names)
  have n: "names_of (filter_top_consumers df Value K) = map fst (max_usage df Value)"
    by (simp add: filter_top_consumers_nonempty False t)
  have s: "set (names_of (filter_top_consumers df Value K)) = process_names df"
    unfolding n by (rule set_max_usage_names)
  have tab: "table_of (filter_top_consumers df Value K) = df"
    unfolding table_of_eq s by (simp add: process_names_def)
  from n s tab False distinct_max_usage_names [of df Value] show ?thesis
    by (cases "filter_top_consumers df Value K") (simp_all add: filter_top_consumers_def)
qed

theorem top_n_beyond_the_names_witness:
  "card (process_names sample_long) < 7
   \<and> filter_top_consumers sample_long Value 7 = Table_and_names sample_long [''a'', ''c'', ''b'']"
proof -
  have h: "card (process_names sample_long) < 7"
    by code_simp
  have e: "filter_top_consumers sample_long Value 7 = Table_and_names sample_long [''a'', ''c'', ''b'']"
    by code_simp
  from top_n_beyond_the_names [OF h] h e show ?thesis by simp
qed

subsection \<open>C7 to C9: loading\<close>

text \<open>
  C7. For every input set, the merged table has as many rows as the files that parse and
  have the marker column \<^verbatim>\<open>NonPagedPoolMB\<close> have together: so has the table
  \<^verbatim>\<open>pd.concat\<close> returns, and so has the table after the conversion of its timestamps and
  the sort, which is sorted by timestamp, non-decreasing, the rows without timestamp last.
\<close>

theorem merged_table_rows_and_order:
  "length (rows (pd_concat (snd (load_files read_csv (sort log_files))))) =
     sum_list (map (\<lambda>df. length (rows df))
                   (List.map_filter (valid_frame read_csv) (sort log_files)))
   \<and> (\<forall>df_main. merge_frames (snd (load_files read_csv (sort log_files))) = Inr df_main \<longrightarrow>
          length (main_rows df_main) =
            sum_list (map (\<lambda>df. length (rows df))
                          (List.map_filter (valid_frame read_csv) (sort log_files)))
        \<and> sorted (map (\<lambda>r. stamp_key (stamp r)) (main_rows df_main))
        \<and> (\<forall>i j a b. i < j \<and> j < length (main_rows df_main)
               \<and> stamp (main_rows df_main ! i) = Some a \<and> stamp (main_rows df_main ! j) = Some b
             \<longrightarrow> a \<le> b))"
proof (intro conjI allI impI)
  show "length (rows (pd_concat (snd (load_files read_csv (sort log_files))))) =
     sum_list (map (\<lambda>df. length (rows df))
                   (List.map_filter (valid_frame read_csv) (sort log_files)))"
    by (simp add: pd_concat_length load_files_frames)
next
  fix df_main
  assume "merge_frames (snd (load_files read_csv (sort log_files))) = Inr df_main"
  then show "length (main_rows df_main) =
      sum_list (map (\<lambda>df. length (rows df))
                    (List.map_filter (valid_frame read_csv) (sort log_files)))"
    by (simp add: merge_frames_length load_files_frames)
next
  fix df_main
  assume "merge_frames (snd (load_files read_csv (sort log_files))) = Inr df_main"
  then show "sorted (map (\<lambda>r. stamp_key (stamp r)) (main_rows df_main))"
    by (rule merge_frames_sorted)
next
  fix df_main :: main_frame and i j :: nat and a b :: int
  let ?keys = "map (\<lambda>r. stamp_key (stamp r)) (main_rows df_main)"
  assume "merge_frames (snd (load_files read_csv (sort log_files))) = Inr df_main"
  then have srt: "sorted ?keys"
    by (rule merge_frames_sorted)
  assume h: "i < j \<and> j < length (main_rows df_main)
      \<and> stamp (main_rows df_main ! i) = Some a \<and> stamp (main_rows df_main ! j) = Some b"
  with srt have "?keys ! i \<le> ?keys ! j"
    by (intro sorted_nth_mono) simp_all
  with h show "a \<le> b" by simp
qed

theorem merged_table_rows_and_order_witness:
  "\<not> isl (merge_frames (snd (load_files read_logs (sort [''old_log.csv'', ''b_log.csv'', ''a_log.csv'']))))
   \<and> map (\<lambda>df. length (rows df))
       (List.map_filter (valid_frame read_logs) (sort [''old_log.csv'', ''b_log.csv'', ''a_log.csv'']))
     = [2, 1]
   \<and> length (main_rows (projr (merge_frames
       (snd (load_files read_logs (sort [''old_log.csv'', ''b_log.csv'', ''a_log.csv'']))))))
     = 3
   \<and> map stamp (main_rows (projr (merge_frames
       (snd (load_files read_logs (sort [''old_log.csv'', ''b_log.csv'', ''a_log.csv'']))))))
     = [Some 10, Some 15, Some 20]"
proof -
  let ?m = "merge_frames (snd (load_files read_logs (sort [''old_log.csv'', ''b_log.csv'', ''a_log.csv''])))"
  have h: "\<not> isl ?m"
    by code_simp
  then have "?m = Inr (projr ?m)" by simp
  with merged_table_rows_and_order [of read_logs "[''old_log.csv'', ''b_log.csv'', ''a_log.csv'']"]
  have l: "length (main_rows (projr ?m)) =
      sum_list (map (\<lambda>df. length (rows df))
        (List.map_filter (valid_frame read_logs) (sort [''old_log.csv'', ''b_log.csv'', ''a_log.csv''])))"
    by blast
  have c: "map (\<lambda>df. length (rows df))
       (List.map_filter (valid_frame read_logs) (sort [''old_log.csv'', ''b_log.csv'', ''a_log.csv'']))
     = [2, 1]"
    by code_simp
  have s: "map stamp (main_rows (projr ?m)) = [Some 10, Some 15, Some 20]"
    by code_simp
  from l have "length (main_rows (projr ?m)) = 3"
    by (simp only: c) simp
  with h c s show ?thesis by simp
qed

text \<open>
  C8. When no file matches \<^verbatim>\<open>*_log.csv\<close>, the run prints
  ``No log files (*_log.csv) found in the current directory.'' and returns; nothing else is
  printed and no file is written.
\<close>

theorem no_matching_files:
  "generate_report [] read_csv =
     ([Print ''No log files (*_log.csv) found in the current directory.''], Returned)"
  by (simp add: generate_report_def)

theorem no_matching_files_witness:
  "generate_report [] read_logs =
     ([Print ''No log files (*_log.csv) found in the current directory.''], Returned)"
  by (rule no_matching_files)

text \<open>
  C9. A file that parses and lacks the marker column \<^verbatim>\<open>NonPagedPoolMB\<close> is skipped: the
  run prints its skip message, the file adds no frame, and the frames loaded are those of
  all the files that parse and have the column. When no file survives, the run prints
  ``Could not read any valid data (New Format).'' last and returns without writing.
\<close>

theorem legacy_file_is_skipped:
  assumes "f \<in> set log_files" and "read_csv f = Inr df"
    and "''NonPagedPoolMB'' \<notin> set (columns df)"
  shows "Print (''Skipping '' @ f @ '': Old format (missing NonPagedPoolMB)'')
           \<in> set (fst (generate_report log_files read_csv))
       \<and> valid_frame read_csv f = None
       \<and> snd (load_files read_csv (sort log_files))
           = List.map_filter (valid_frame read_csv) (sort log_files)
       \<and> ((\<forall>g\<in>set log_files. \<not> valid_file read_csv g) \<longrightarrow>
            generate_report log_files read_csv =
              (FoundLogFiles (sort log_files) # fst (load_files read_csv (sort log_files))
                 @ [Print ''Could not read any valid data (New Format).''],
               Returned))"
proof -
  from assms(1) have ne: "log_files \<noteq> []" by auto
  have "Print (''Skipping '' @ f @ '': Old format (missing NonPagedPoolMB)'')
      \<in> set (fst (load_files read_csv (sort log_files)))"
    by (rule load_files_skip) (use assms in simp_all)
  with fst_generate_report [OF ne, of read_csv]
  have "Print (''Skipping '' @ f @ '': Old format (missing NonPagedPoolMB)'')
      \<in> set (fst (generate_report log_files read_csv))"
    by auto
  moreover from assms(2,3) have "valid_frame read_csv f = None"
    by (simp add: valid_frame_def)
  ultimately show ?thesis
    using generate_report_no_data [OF ne, of read_csv] by (simp add: load_files_frames)
qed

theorem legacy_file_is_skipped_witness:
  "read_logs ''old_log.csv'' = Inr legacy_log
   \<and> ''NonPagedPoolMB'' \<notin> set (columns legacy_log)
   \<and> generate_report [''old_log.csv'', ''missing_log.csv''] read_logs =
       ([FoundLogFiles [''missing_log.csv'', ''old_log.csv''],
         ErrorReading ''missing_log.csv'' (ReadError ''No such file or directory''),
         Print ''Skipping old_log.csv: Old format (missing NonPagedPoolMB)'',
         Print ''Could not read any valid data (New Format).''],
        Returned)"
proof -
  have 1: "''old_log.csv'' \<in> set [''old_log.csv'', ''missing_log.csv'']"
    by simp
  have 2: "read_logs ''old_log.csv'' = Inr legacy_log"
    by (simp add: read_logs_def)
  have 3: "''NonPagedPoolMB'' \<notin> set (columns legacy_log)"
    by (simp add: legacy_log_def csv_frame_def)
  have 4: "\<forall>g\<in>set [''old_log.csv'', ''missing_log.csv'']. \<not> valid_file read_logs g"
    by (simp add: valid_file_def valid_frame_def read_logs_def legacy_log_def csv_frame_def)
  have 5: "sort [''old_log.csv'', ''missing_log.csv''] = [''missing_log.csv'', ''old_log.csv'']"
    by code_simp
  have 6: "fst (load_files read_logs [''missing_log.csv'', ''old_log.csv'']) =
      [ErrorReading ''missing_log.csv'' (ReadError ''No such file or directory''),
       Print ''Skipping old_log.csv: Old format (missing NonPagedPoolMB)'']"
    by (simp add: read_logs_def legacy_log_def csv_frame_def)
  from legacy_file_is_skipped [where f = "''old_log.csv''" and read_csv = read_logs
      and log_files = "[''old_log.csv'', ''missing_log.csv'']" and df = legacy_log, OF 1 2 3] 4
  have "generate_report [''old_log.csv'', ''missing_log.csv''] read_logs =
      (FoundLogFiles (sort [''old_log.csv'', ''missing_log.csv''])
         # fst (load_files read_logs (sort [''old_log.csv'', ''missing_log.csv'']))
         @ [Print ''Could not read any valid data (New Format).''],
       Returned)"
    by blast
  with 2 3 show ?thesis
    by (simp only: 5 6) simp
qed

subsection \<open>C10: the numbers of series\<close>

text \<open>
  C10. The run selects with K = 5 for memory and K = 3 for handles (the default of
  \<^verbatim>\<open>top_n\<close>, 10, is passed nowhere): in every report written, the series of row 3 are the
  names selected with 5 from the memory long table, those of row 4 the names selected with
  3 from the handle long table, so row 3 has at most 5 series and row 4 at most 3.
\<close>

theorem memory_top5_handles_top3:
  assumes "generate_report log_files read_csv = (msgs, Written fig)"
  shows "\<exists>df_main df_mem df_handle.
      merge_frames (List.map_filter (valid_frame read_csv) (sort log_files)) = Inr df_main
    \<and> long_table df_main ''TopMem'' ''TopMem'' 10 ''MB'' = Inr df_mem
    \<and> long_table df_main ''TopHandle'' ''TopHandle'' 5 ''Count'' = Inr df_handle
    \<and> map name (series_in_row 3 fig) = map Mem (names_of (filter_top_consumers df_mem Value 5))
    \<and> map name (series_in_row 4 fig)
        = map Handles (names_of (filter_top_consumers df_handle Value 3))
    \<and> length (series_in_row 3 fig) = min 5 (card (process_names df_mem))
    \<and> length (series_in_row 4 fig) = min 3 (card (process_names df_handle))
    \<and> length (series_in_row 3 fig) \<le> 5 \<and> length (series_in_row 4 fig) \<le> 3"
proof -
  from generate_report_Written [OF assms] obtain df_main where
    m: "merge_frames (List.map_filter (valid_frame read_csv) (sort log_files)) = Inr df_main"
    and b: "build_figure df_main = Inr fig"
    by blast
  from build_figure_Inr [OF b] obtain df_mem df_handle where
    l: "long_table df_main ''TopMem'' ''TopMem'' 10 ''MB'' = Inr df_mem"
      "long_table df_main ''TopHandle'' ''TopHandle'' 5 ''Count'' = Inr df_handle"
    and ne: "df_mem \<noteq> []" "df_handle \<noteq> []"
    and s3: "series_in_row 3 fig =
             process_traces 3 Mem (table_of (filter_top_consumers df_mem Value 5))
               (names_of (filter_top_consumers df_mem Value 5))"
    and s4: "series_in_row 4 fig =
             process_traces 4 Handles (table_of (filter_top_consumers df_handle Value 3))
               (names_of (filter_top_consumers df_handle Value 3))"
    by blast
  from ne have t: "table_of (filter_top_consumers df_mem Value 5) \<noteq> []"
    "table_of (filter_top_consumers df_handle Value 3) \<noteq> []"
    by (simp_all add: selected_table_nonempty)
  have n3: "map name (series_in_row 3 fig) = map Mem (names_of (filter_top_consumers df_mem Value 5))"
    unfolding s3 using t(1) by (rule names_process_traces)
  have n4: "map name (series_in_row 4 fig)
      = map Handles (names_of (filter_top_consumers df_handle Value 3))"
    unfolding s4 using t(2) by (rule names_process_traces)
  from n3 have "length (map name (series_in_row 3 fig))
      = length (map Mem (names_of (filter_top_consumers df_mem Value 5)))"
    by (rule arg_cong)
  then have l3: "length (series_in_row 3 fig) = min 5 (card (process_names df_mem))"
    by (simp add: length_names_of)
  from n4 have "length (map name (series_in_row 4 fig))
      = length (map Handles (names_of (filter_top_consumers df_handle Value 3)))"
    by (rule arg_cong)
  then have l4: "length (series_in_row 4 fig) = min 3 (card (process_names df_handle))"
    by (simp add: length_names_of)
  from l3 l4 have "length (series_in_row 3 fig) \<le> 5" "length (series_in_row 4 fig) \<le> 3"
    by simp_all
  with m l n3 n4 l3 l4 show ?thesis by blast
qed

theorem memory_top5_handles_top3_witness:
  "generate_report [''busy_log.csv''] read_logs =
     ([FoundLogFiles [''busy_log.csv''],
       SuccessfullyCreated ''MemoryForensicsReport.html'', SuccessBanner,
       Print ''Report has been successfully generated! Please open MemoryForensicsReport.html to view.''],
      Written busy_figure)
   \<and> map name (series_in_row 3 busy_figure) = [Mem ''a'', Mem ''b'', Mem ''c'', Mem ''d'', Mem ''e'']
   \<and> map name (series_in_row 4 busy_figure) = [Handles ''p'', Handles ''q'', Handles ''r'']
   \<and> length (series_in_row 3 busy_figure) \<le> 5 \<and> length (series_in_row 4 busy_figure) \<le> 3"
proof -
  have r: "generate_report [''busy_log.csv''] read_logs =
     ([FoundLogFiles [''busy_log.csv''],
       SuccessfullyCreated ''MemoryForensicsReport.html'', SuccessBanner,
       Print ''Report has been successfully generated! Please open MemoryForensicsReport.html to view.''],
      Written busy_figure)"
    by code_simp
  have n: "map name (series_in_row 3 busy_figure) = [Mem ''a'', Mem ''b'', Mem ''c'', Mem ''d'', Mem ''e'']"
    "map name (series_in_row 4 busy_figure) = [Handles ''p'', Handles ''q'', Handles ''r'']"
    by code_simp+
  from memory_top5_handles_top3 [OF r]
  have "length (series_in_row 3 busy_figure) \<le> 5 \<and> length (series_in_row 4 busy_figure) \<le> 3"
    by blast
  with r n show ?thesis by simp
qed

end
